theory Spec2Isabelle
  imports Main "HOL-Library.Word"
begin

section \<open>Status values\<close>

text \<open>
  \<^verbatim>\<open>common/status.h\<close> is used by every file of the backend. A \<^verbatim>\<open>Status\<close> holds a
  pointer to an error detail (a status code and messages) that is null for success;
  \<^verbatim>\<open>ok()\<close> tests the pointer. \<^verbatim>\<open>Status(msg)\<close> builds an internal error.
\<close>

datatype TStatusCode = T_OK | T_CANCELLED | T_INTERNAL_ERROR | T_MEM_LIMIT_EXCEEDED

datatype Status = OK | Error TStatusCode "string list"

fun ok :: "Status \<Rightarrow> bool" where
  "ok OK = True"
| "ok (Error c msgs) = False"

definition MEM_LIMIT_EXCEEDED :: Status where
  "MEM_LIMIT_EXCEEDED = Error T_MEM_LIMIT_EXCEEDED [''Memory limit exceeded'']"

definition CANCELLED :: Status where
  "CANCELLED = Error T_CANCELLED [''Cancelled'']"

fun IsMemLimitExceeded :: "Status \<Rightarrow> bool" where
  "IsMemLimitExceeded OK = False"
| "IsMemLimitExceeded (Error c msgs) = (c = T_MEM_LIMIT_EXCEEDED)"

definition Status_msg :: "string \<Rightarrow> Status" where
  "Status_msg m = Error T_INTERNAL_ERROR [m]"


section \<open>FragmentExecState (service/fragment-exec-state.cc)\<close>

record FragmentExecState =
  backend_num :: int
  exec_status :: Status

text \<open>
  \<^verbatim>\<open>if (!status.ok() && exec_status_.ok()) exec_status_ = status; return exec_status_;\<close>
  The call returns the status and leaves the updated object.
\<close>

definition UpdateStatus :: "FragmentExecState \<Rightarrow> Status \<Rightarrow> Status \<times> FragmentExecState" where
  "UpdateStatus fs status =
     (let fs' = (if \<not> ok status \<and> ok (exec_status fs) then fs\<lparr>exec_status := status\<rparr> else fs)
      in (exec_status fs', fs'))"

text \<open>A sequence of calls on one object, in order; the returned values are dropped.\<close>

fun UpdateStatus_calls :: "FragmentExecState \<Rightarrow> Status list \<Rightarrow> FragmentExecState" where
  "UpdateStatus_calls fs [] = fs"
| "UpdateStatus_calls fs (st # sts) = UpdateStatus_calls (snd (UpdateStatus fs st)) sts"

section \<open>Counters (util/runtime-profile.h)\<close>

datatype TCounterType = UNIT | BYTES | TIME_NS | DOUBLE_VALUE | BITMAP

text \<open>
  Modelled from the spec: \<^verbatim>\<open>common/atomic.h\<close> (the class \<^verbatim>\<open>AtomicInt\<close>) is missing. The
  spec describes a counter value as an atomic 64-bit integer and \<^verbatim>\<open>TryUpdate\<close> as
  bounded by a compare-and-swap. An \<^verbatim>\<open>AtomicInt<int64_t>\<close> is a \<open>64 word\<close> read as two's
  complement; a fresh one holds 0. \<^verbatim>\<open>UpdateAndFetch\<close> adds and returns the new value,
  \<^verbatim>\<open>UpdateMax\<close> stores the larger of the held and the given value, \<^verbatim>\<open>Swap\<close> stores
  the new value if the held one equals the expected one and says whether it did.
  Each operation returns its result (if any) and the value held afterwards.
\<close>

type_synonym int64_t = "64 word"

definition AtomicInt_UpdateAndFetch :: "int64_t \<Rightarrow> int64_t \<Rightarrow> int64_t \<times> int64_t" where
  "AtomicInt_UpdateAndFetch a delta = (a + delta, a + delta)"

definition AtomicInt_UpdateMax :: "int64_t \<Rightarrow> int64_t \<Rightarrow> int64_t" where
  "AtomicInt_UpdateMax a v = (if a <s v then v else a)"

definition AtomicInt_Swap :: "int64_t \<Rightarrow> int64_t \<Rightarrow> int64_t \<Rightarrow> bool \<times> int64_t" where
  "AtomicInt_Swap a old_val new_val = (if a = old_val then (True, new_val) else (False, a))"

record Counter =
  m_value :: int64_t
  m_type :: TCounterType

definition Counter_new :: "TCounterType \<Rightarrow> Counter" where
  "Counter_new t = \<lparr>m_value = 0, m_type = t\<rparr>"

definition Counter_Update :: "Counter \<Rightarrow> int64_t \<Rightarrow> Counter" where
  "Counter_Update c delta = c\<lparr>m_value := m_value c + delta\<rparr>"

text \<open>
  \<^verbatim>\<open>class HighWaterMarkCounter : public Counter\<close>: \<open>m_value\<close> of the base class is the
  high water mark, \<open>m_current_value\<close> the current value.
\<close>

record HighWaterMarkCounter = Counter +
  m_current_value :: int64_t

definition HighWaterMarkCounter_new :: "TCounterType \<Rightarrow> HighWaterMarkCounter" where
  "HighWaterMarkCounter_new t = \<lparr>m_value = 0, m_type = t, m_current_value = 0\<rparr>"

definition "value" :: "HighWaterMarkCounter \<Rightarrow> int64_t" where
  "value c = m_value c"

definition current_value :: "HighWaterMarkCounter \<Rightarrow> int64_t" where
  "current_value c = m_current_value c"

text \<open>
  \<^verbatim>\<open>int64_t new_val = current_value_.UpdateAndFetch(delta); value_.UpdateMax(new_val);\<close>
\<close>

definition HighWaterMarkCounter_Update :: "HighWaterMarkCounter \<Rightarrow> int64_t \<Rightarrow> HighWaterMarkCounter" where
  "HighWaterMarkCounter_Update c delta =
     (let (new_val, cur) = AtomicInt_UpdateAndFetch (m_current_value c) delta
      in c\<lparr>m_current_value := cur, m_value := AtomicInt_UpdateMax (m_value c) new_val\<rparr>)"

text \<open>
  The loop of \<^verbatim>\<open>TryUpdate\<close> runs until the compare-and-swap succeeds or the bound is
  exceeded; a failed swap goes round again.
\<close>

partial_function (option) HighWaterMarkCounter_TryUpdate ::
  "HighWaterMarkCounter \<Rightarrow> int64_t \<Rightarrow> int64_t \<Rightarrow> (bool \<times> HighWaterMarkCounter) option" where
  "HighWaterMarkCounter_TryUpdate c delta mx =
     (let old_val = m_current_value c;
          new_val = old_val + delta
      in if mx <s new_val then Some (False, c)
         else (let sw = AtomicInt_Swap (m_current_value c) old_val new_val
               in if fst sw
                  then Some (True, c\<lparr>m_current_value := snd sw,
                                      m_value := AtomicInt_UpdateMax (m_value c) new_val\<rparr>)
                  else HighWaterMarkCounter_TryUpdate (c\<lparr>m_current_value := snd sw\<rparr>) delta mx))"

declare HighWaterMarkCounter_TryUpdate.simps [code]

definition HighWaterMarkCounter_Set :: "HighWaterMarkCounter \<Rightarrow> int64_t \<Rightarrow> HighWaterMarkCounter" where
  "HighWaterMarkCounter_Set c v = c\<lparr>m_current_value := v, m_value := AtomicInt_UpdateMax (m_value c) v\<rparr>"

fun HighWaterMarkCounter_Updates :: "HighWaterMarkCounter \<Rightarrow> int64_t list \<Rightarrow> HighWaterMarkCounter" where
  "HighWaterMarkCounter_Updates c [] = c"
| "HighWaterMarkCounter_Updates c (d # ds) =
     HighWaterMarkCounter_Updates (HighWaterMarkCounter_Update c d) ds"



section \<open>RuntimeProfile (util/runtime-profile.h)\<close>

text \<open>
  The header declares the counter map as \<^verbatim>\<open>std::map<std::string, Counter*>\<close> and the
  child counter map as a map from a parent counter name to the set of its children's names
  (top-level counters are children of the empty name). Counters are allocated from an object
  pool and handed out as pointers: the pool is a list and a pointer is an index into it.
\<close>

type_synonym counter_ptr = nat

record RuntimeProfile =
  profile_name :: string
  metadata :: int64_t
  pool :: "Counter list"
  counter_map :: "string \<rightharpoonup> counter_ptr"
  child_counter_map :: "string \<rightharpoonup> string set"
  children :: "(string \<times> bool) list"

definition RuntimeProfile_new :: "string \<Rightarrow> RuntimeProfile" where
  "RuntimeProfile_new n =
     \<lparr>profile_name = n, metadata = 0, pool = [], counter_map = Map.empty,
      child_counter_map = Map.empty, children = []\<rparr>"

text \<open>
  Modelled from the spec: the body of \<^verbatim>\<open>RuntimeProfile::AddCounter\<close> is in
  \<^verbatim>\<open>runtime-profile.cc\<close>, which is missing. The spec and the header comment say: "Add a
  counter with 'name'/'type'. Returns a counter object that the caller can update. If
  parent_counter_name is a non-empty string, the counter is added as a child of
  parent_counter_name. If the counter already exists, the existing counter object is
  returned."
\<close>

definition AddCounter ::
  "RuntimeProfile \<Rightarrow> string \<Rightarrow> TCounterType \<Rightarrow> string \<Rightarrow> counter_ptr \<times> RuntimeProfile" where
  "AddCounter P n t parent_counter_name =
     (case counter_map P n of
        Some c \<Rightarrow> (c, P)
      | None \<Rightarrow>
          (let c = length (pool P);
               siblings = (case child_counter_map P parent_counter_name of
                             None \<Rightarrow> {} | Some S \<Rightarrow> S)
           in (c, P\<lparr>pool := pool P @ [Counter_new t],
                     counter_map := (counter_map P)(n \<mapsto> c),
                     child_counter_map :=
                       (child_counter_map P)(parent_counter_name \<mapsto> insert n siblings)\<rparr>)))"

text \<open>
  Modelled from the spec: the body of \<^verbatim>\<open>RuntimeProfile::GetCounter\<close> is missing too.
  "Gets the counter object with 'name'. Returns NULL if there is no counter with that
  name." \<open>None\<close> is the null pointer.
\<close>

definition GetCounter :: "RuntimeProfile \<Rightarrow> string \<Rightarrow> counter_ptr option" where
  "GetCounter P n = counter_map P n"

text \<open>
  Modelled from the spec: \<^verbatim>\<open>RuntimeProfile::AddChild\<close> is missing. The spec keeps an
  ordered list of child profiles, each with an indent flag; a child added without a location
  goes to the end.
\<close>

definition AddChild :: "RuntimeProfile \<Rightarrow> string \<Rightarrow> bool \<Rightarrow> RuntimeProfile" where
  "AddChild P child indent = P\<lparr>children := children P @ [(child, indent)]\<rparr>"


section \<open>RuntimeState (runtime/runtime-state.cc)\<close>

text \<open>
  The query options are a Thrift struct; \<open>max_errors\<close> and \<open>batch_size\<close> are signed
  32-bit fields (the code tests them with \<^verbatim>\<open><= 0\<close>, and the flag of the same name is
  declared with \<^verbatim>\<open>DECLARE_int32\<close>).
\<close>

type_synonym int32_t = "32 word"

record TQueryOptions =
  disable_codegen :: bool
  max_errors :: int32_t
  batch_size :: int32_t

text \<open>
  What the code asks of a memory tracker: its label, whether its limit is exceeded and its
  usage report. The class itself (\<^verbatim>\<open>runtime/mem-tracker.h\<close>) is outside these files.
\<close>

record MemTracker =
  label :: string
  LimitExceeded :: bool
  LogUsage :: string

record ExecEnv =
  process_mem_tracker :: MemTracker

record LlvmCodeGen =
  optimizations_enabled :: bool
  codegen_profile_name :: string

record RuntimeState =
  unreported_error_idx :: nat
  query_options :: TQueryOptions
  fragment_instance_id :: "int64_t \<times> int64_t"
  exec_env :: "ExecEnv option"
  codegen :: "LlvmCodeGen option"
  has_resource_pool :: bool
  profile :: RuntimeProfile
  total_cpu_timer :: "counter_ptr option"
  total_storage_wait_timer :: "counter_ptr option"
  total_network_wait_timer :: "counter_ptr option"
  error_log :: "string list"
  query_status :: Status
  query_mem_tracker :: "MemTracker option"
  is_cancelled :: bool

text \<open>
  \<^verbatim>\<open>CreateCodegen\<close>: nothing to do when a code generator exists; otherwise load the IR
  module, which can fail. \<open>load_ir\<close> is what \<^verbatim>\<open>LlvmCodeGen::LoadImpalaIR\<close> does in this
  run: the status it returns and the object it creates when that status is OK.
\<close>

definition CreateCodegen :: "Status \<times> LlvmCodeGen \<Rightarrow> RuntimeState \<Rightarrow> Status \<times> RuntimeState" where
  "CreateCodegen load_ir s =
     (if codegen s \<noteq> None then (OK, s)
      else if \<not> ok (fst load_ir) then (fst load_ir, s)
      else (OK, s\<lparr>codegen := Some ((snd load_ir)\<lparr>optimizations_enabled := True\<rparr>),
                  profile := AddChild (profile s) (codegen_profile_name (snd load_ir)) True\<rparr>))"

text \<open>
  \<^verbatim>\<open>Init\<close>. \<open>DEFAULT_BATCH_SIZE\<close> is a compile-time constant defined outside these
  files. \<^verbatim>\<open>RETURN_IF_ERROR(CreateCodegen())\<close> leaves the function with the error before
  the options are looked at. \<^verbatim>\<open>ADD_TIMER(p, name)\<close> is \<^verbatim>\<open>p->AddCounter(name, TIME_NS)\<close>.
\<close>

definition Init_options :: "int32_t \<Rightarrow> TQueryOptions \<Rightarrow> TQueryOptions" where
  "Init_options DEFAULT_BATCH_SIZE qo =
     (let qo1 = (if sint (max_errors qo) \<le> 0 then qo\<lparr>max_errors := 100\<rparr> else qo)
      in if sint (batch_size qo1) \<le> 0 then qo1\<lparr>batch_size := DEFAULT_BATCH_SIZE\<rparr> else qo1)"

definition Init_rest :: "int32_t \<Rightarrow> RuntimeState \<Rightarrow> Status \<times> RuntimeState" where
  "Init_rest DEFAULT_BATCH_SIZE s =
     (let s1 = s\<lparr>query_options := Init_options DEFAULT_BATCH_SIZE (query_options s)\<rparr>;
          s2 = (if exec_env s1 \<noteq> None then s1\<lparr>has_resource_pool := True\<rparr> else s1);
          (c1, p1) = AddCounter (profile s2) ''TotalCpuTime'' TIME_NS [];
          (c2, p2) = AddCounter p1 ''TotalStorageWaitTime'' TIME_NS [];
          (c3, p3) = AddCounter p2 ''TotalNetworkWaitTime'' TIME_NS []
      in (OK, s2\<lparr>profile := p3, total_cpu_timer := Some c1,
                  total_storage_wait_timer := Some c2,
                  total_network_wait_timer := Some c3\<rparr>))"

definition Init ::
  "int32_t \<Rightarrow> Status \<times> LlvmCodeGen \<Rightarrow> RuntimeState \<Rightarrow> int64_t \<times> int64_t \<Rightarrow> ExecEnv option
     \<Rightarrow> Status \<times> RuntimeState" where
  "Init DEFAULT_BATCH_SIZE load_ir s fragment_instance_id' exec_env' =
     (let s0 = s\<lparr>fragment_instance_id := fragment_instance_id', exec_env := exec_env'\<rparr>
      in if \<not> disable_codegen (query_options s0)
         then (let (st, s1) = CreateCodegen load_ir s0
               in if \<not> ok st then (st, s1) else Init_rest DEFAULT_BATCH_SIZE s1)
         else Init_rest DEFAULT_BATCH_SIZE (s0\<lparr>codegen := None\<rparr>))"

text \<open>
  The two constructors. The first (server side) runs \<^verbatim>\<open>Init\<close> and only asserts, in debug
  builds, that it succeeded. The second (planning side) takes the query context as it is
  and sets the batch size; it does not run \<^verbatim>\<open>Init\<close>. \<open>print_id\<close> is the text
  \<^verbatim>\<open>PrintId\<close> gives for the fragment instance id.
\<close>

definition RuntimeState_fields :: "TQueryOptions \<Rightarrow> ExecEnv option \<Rightarrow> string \<Rightarrow> RuntimeState" where
  "RuntimeState_fields qo env pname =
     \<lparr>unreported_error_idx = 0, query_options = qo, fragment_instance_id = (0, 0),
      exec_env = env, codegen = None, has_resource_pool = False,
      profile = RuntimeProfile_new pname, total_cpu_timer = None,
      total_storage_wait_timer = None, total_network_wait_timer = None,
      error_log = [], query_status = OK, query_mem_tracker = None, is_cancelled = False\<rparr>"

definition RuntimeState_server ::
  "int32_t \<Rightarrow> Status \<times> LlvmCodeGen \<Rightarrow> string \<Rightarrow> int64_t \<times> int64_t \<Rightarrow> TQueryOptions
     \<Rightarrow> ExecEnv option \<Rightarrow> RuntimeState" where
  "RuntimeState_server DEFAULT_BATCH_SIZE load_ir print_id fid qo env =
     snd (Init DEFAULT_BATCH_SIZE load_ir
            (RuntimeState_fields qo None (''Fragment '' @ print_id)) fid env)"

definition RuntimeState_planning :: "int32_t \<Rightarrow> ExecEnv option \<Rightarrow> TQueryOptions \<Rightarrow> RuntimeState" where
  "RuntimeState_planning DEFAULT_BATCH_SIZE instance qo =
     RuntimeState_fields (qo\<lparr>batch_size := DEFAULT_BATCH_SIZE\<rparr>) instance ''<unnamed>''"

text \<open>\<^verbatim>\<open>return (error_log_.size() > 0);\<close>\<close>

definition ErrorLogIsEmpty :: "RuntimeState \<Rightarrow> bool" where
  "ErrorLogIsEmpty s = (length (error_log s) > 0)"

text \<open>
  \<^verbatim>\<open>error_log_.size() < query_ctxt_.request.query_options.max_errors\<close> compares an
  unsigned \<^verbatim>\<open>size_t\<close> with a signed 32-bit integer: the integer is converted to the
  64-bit unsigned type first, so a negative bound becomes a very large one.
\<close>

definition to_size_t :: "int32_t \<Rightarrow> nat" where
  "to_size_t m = nat (sint m mod 2 ^ 64)"

definition LogError :: "RuntimeState \<Rightarrow> string \<Rightarrow> bool \<times> RuntimeState" where
  "LogError s error =
     (if length (error_log s) < to_size_t (max_errors (query_options s))
      then (True, s\<lparr>error_log := error_log s @ [error]\<rparr>)
      else (False, s))"

fun LogError_calls :: "RuntimeState \<Rightarrow> string list \<Rightarrow> RuntimeState" where
  "LogError_calls s [] = s"
| "LogError_calls s (e # es) = LogError_calls (snd (LogError s e)) es"

text \<open>
  \<^verbatim>\<open>GetUnreportedErrors(vector<string>* new_errors)\<close> writes through its argument only
  when there is something new; the model takes the vector's content before the call and
  returns its content after it.
\<close>

definition GetUnreportedErrors :: "RuntimeState \<Rightarrow> string list \<Rightarrow> string list \<times> RuntimeState" where
  "GetUnreportedErrors s new_errors =
     (if unreported_error_idx s < length (error_log s)
      then (drop (unreported_error_idx s) (error_log s),
            s\<lparr>unreported_error_idx := length (error_log s)\<rparr>)
      else (new_errors, s))"

text \<open>
  \<^verbatim>\<open>SetMemLimitExceeded(MemTracker* tracker, int64_t failed_allocation_size)\<close>. The
  pointers it follows can be null (the defaults of the declaration are a null tracker and
  size 0); following a null pointer ends the run. \<open>print_bytes\<close> stands for
  \<^verbatim>\<open>PrettyPrinter::Print(_, TCounterType::BYTES)\<close>.
\<close>

datatype fault = NullPointer

definition MemLimit_detail :: "(int64_t \<Rightarrow> string) \<Rightarrow> MemTracker option \<Rightarrow> int64_t \<Rightarrow> fault + string" where
  "MemLimit_detail print_bytes tracker failed_allocation_size =
     (if failed_allocation_size \<noteq> 0
      then (case tracker of
              None \<Rightarrow> Inl NullPointer
            | Some t \<Rightarrow> Inr (''  '' @ label t @ '' could not allocate ''
                              @ print_bytes failed_allocation_size
                              @ '' without exceeding limit.'' @ [CHR 0x0A]))
      else Inr [])"

definition MemLimit_usage :: "RuntimeState \<Rightarrow> fault + string" where
  "MemLimit_usage s =
     (case exec_env s of
        None \<Rightarrow> Inl NullPointer
      | Some env \<Rightarrow>
          if LimitExceeded (process_mem_tracker env)
          then Inr (LogUsage (process_mem_tracker env))
          else (case query_mem_tracker s of
                  None \<Rightarrow> Inl NullPointer
                | Some q \<Rightarrow> Inr (LogUsage q)))"

definition SetMemLimitExceeded ::
  "(int64_t \<Rightarrow> string) \<Rightarrow> RuntimeState \<Rightarrow> MemTracker option \<Rightarrow> int64_t
     \<Rightarrow> fault + Status \<times> RuntimeState" where
  "SetMemLimitExceeded print_bytes s tracker failed_allocation_size =
     (if ok (query_status s)
      then (let s1 = s\<lparr>query_status := MEM_LIMIT_EXCEEDED\<rparr>
            in case MemLimit_detail print_bytes tracker failed_allocation_size of
                 Inl f \<Rightarrow> Inl f
               | Inr detail \<Rightarrow>
                   (case MemLimit_usage s1 of
                      Inl f \<Rightarrow> Inl f
                    | Inr usage \<Rightarrow>
                        (let s2 = snd (LogError s1
                                    (''Memory Limit Exceeded'' @ [CHR 0x0A] @ detail @ usage))
                         in Inr (query_status s2, s2))))
      else Inr (query_status s, s))"


section \<open>ThriftClientImpl (rpc/thrift-client.cc)\<close>

text \<open>Decimal text of a number, as \<^verbatim>\<open>operator<<\<close> writes it to a stream.\<close>

fun show_nat :: "nat \<Rightarrow> string" where
  "show_nat n = (if n < 10 then [char_of (48 + n)] else show_nat (n div 10) @ [char_of (48 + n mod 10)])"

declare show_nat.simps [simp del]

definition show_int :: "int \<Rightarrow> string" where
  "show_int i = (if i < 0 then CHR ''-'' # show_nat (nat (- i)) else show_nat (nat i))"

record ThriftClientImpl =
  ipaddress :: string
  port :: int
  socket_create_status :: Status
  transport_isOpen :: bool

text \<open>
  \<^verbatim>\<open>Open\<close>. \<open>outcome\<close> is what \<^verbatim>\<open>transport_->open()\<close> does if it is called in this
  attempt: \<open>None\<close> when it returns, \<open>Some what\<close> when it throws a
  \<^verbatim>\<open>TTransportException\<close> with that text.
\<close>

definition Open :: "ThriftClientImpl \<Rightarrow> string option \<Rightarrow> Status \<times> ThriftClientImpl" where
  "Open c outcome =
     (if \<not> ok (socket_create_status c) then (socket_create_status c, c)
      else if transport_isOpen c then (OK, c)
      else (case outcome of
              None \<Rightarrow> (OK, c\<lparr>transport_isOpen := True\<rparr>)
            | Some what \<Rightarrow>
                (Status_msg (''Couldn't open transport for '' @ ipaddress c @ '':''
                             @ show_int (port c) @ ''('' @ what @ '')''), c)))"

text \<open>
  What \<^verbatim>\<open>OpenWithRetry\<close> does besides opening: the lines it logs and the sleeps.
\<close>

datatype event = LOG_INFO string | SleepForMs "64 word"

type_synonym uint32_t = "32 word"

text \<open>
  The loop \<^verbatim>\<open>while (true)\<close> of \<^verbatim>\<open>OpenWithRetry\<close>, from the state before an iteration:
  the client, the 32-bit \<open>try_count\<close>, the number \<open>n\<close> of calls of \<^verbatim>\<open>Open\<close> made so
  far and the events so far. \<open>net i\<close> is the outcome of the transport in the call of
  \<^verbatim>\<open>Open\<close> number \<open>i\<close> (from 0). The result is the returned status, the client, the
  number of calls of \<^verbatim>\<open>Open\<close> and the events; \<open>None\<close> is a loop that never returns.
\<close>

partial_function (option) OpenWithRetry_loop ::
  "(nat \<Rightarrow> string option) \<Rightarrow> uint32_t \<Rightarrow> 64 word \<Rightarrow> ThriftClientImpl \<Rightarrow> uint32_t \<Rightarrow> nat
     \<Rightarrow> event list \<Rightarrow> (Status \<times> ThriftClientImpl \<times> nat \<times> event list) option" where
  "OpenWithRetry_loop net num_tries wait_ms c try_count n evs =
     (let try_count1 = try_count + 1;
          r = Open c (net n);
          status = fst r;
          c1 = snd r
      in if ok status then Some (status, c1, Suc n, evs)
         else (let evs1 = evs @ [LOG_INFO (''Unable to connect to '' @ ipaddress c1 @ '':''
                                          @ show_int (port c1))]
               in if num_tries = 0
                  then OpenWithRetry_loop net num_tries wait_ms c1 try_count1 (Suc n)
                         (evs1 @ [LOG_INFO (''(Attempt '' @ show_nat (unat try_count1)
                                            @ '', will retry indefinitely)''),
                                  SleepForMs wait_ms])
                  else (let evs2 = (if num_tries \<noteq> 1
                                    then evs1 @ [LOG_INFO (''(Attempt '' @ show_nat (unat try_count1)
                                                  @ '' of '' @ show_nat (unat num_tries) @ '')'')]
                                    else evs1)
                        in if try_count1 = num_tries then Some (status, c1, Suc n, evs2)
                           else OpenWithRetry_loop net num_tries wait_ms c1 try_count1 (Suc n)
                                  (evs2 @ [SleepForMs wait_ms]))))"

declare OpenWithRetry_loop.simps [code]

definition OpenWithRetry ::
  "(nat \<Rightarrow> string option) \<Rightarrow> ThriftClientImpl \<Rightarrow> uint32_t \<Rightarrow> 64 word
     \<Rightarrow> (Status \<times> ThriftClientImpl \<times> nat \<times> event list) option" where
  "OpenWithRetry net c num_tries wait_ms = OpenWithRetry_loop net num_tries wait_ms c 0 0 []"

text \<open>The status of attempt \<open>i\<close> on a client that no earlier attempt has opened.\<close>

definition attempt :: "(nat \<Rightarrow> string option) \<Rightarrow> ThriftClientImpl \<Rightarrow> nat \<Rightarrow> Status" where
  "attempt net c i = fst (Open c (net i))"


section \<open>Project (pythia/operators/project.cpp)\<close>

text \<open>
  \<^verbatim>\<open>parseInput\<close> looks for the first \<^verbatim>\<open>$\<close> and reads an \<^verbatim>\<open>int\<close> from what follows with
  \<^verbatim>\<open>istringstream >> int\<close>. The extraction is the standard library's: it skips white
  space, takes an optional sign and then decimal digits, at least one, and fails (the
  stream tests false) when there is no digit or the value does not fit a 32-bit
  \<^verbatim>\<open>int\<close>. \<open>None\<close> is the failed extraction.
\<close>

definition isspace :: "char \<Rightarrow> bool" where
  "isspace ch = (of_char ch = (32::nat) \<or> (9 \<le> (of_char ch :: nat) \<and> (of_char ch :: nat) \<le> 13))"

definition isdigit :: "char \<Rightarrow> bool" where
  "isdigit ch = (48 \<le> (of_char ch :: nat) \<and> (of_char ch :: nat) \<le> 57)"

fun digits_value :: "int \<Rightarrow> string \<Rightarrow> int" where
  "digits_value acc [] = acc"
| "digits_value acc (d # ds) = digits_value (10 * acc + (int (of_char d) - 48)) ds"

definition extract_int :: "string \<Rightarrow> int option" where
  "extract_int str =
     (let r1 = dropWhile isspace str;
          neg = (r1 \<noteq> [] \<and> hd r1 = CHR ''-'');
          r2 = (if r1 \<noteq> [] \<and> (hd r1 = CHR ''-'' \<or> hd r1 = CHR ''+'') then tl r1 else r1);
          ds = takeWhile isdigit r2;
          v = (if neg then - digits_value 0 ds else digits_value 0 ds)
      in if ds = [] then None
         else if v < - (2 ^ 31) \<or> 2 ^ 31 - 1 < v then None
         else Some v)"

fun find_char :: "char \<Rightarrow> string \<Rightarrow> nat option" where
  "find_char ch [] = None"
| "find_char ch (x # xs) =
     (if x = ch then Some 0 else (case find_char ch xs of None \<Rightarrow> None | Some i \<Rightarrow> Some (Suc i)))"

definition parseInput :: "string \<Rightarrow> int" where
  "parseInput s =
     (case find_char (CHR ''$'') s of
        None \<Rightarrow> - 1
      | Some l \<Rightarrow>
          (case extract_int (drop (l + 1) s) of
             None \<Rightarrow> - 1
           | Some ret \<Rightarrow> ret))"

text \<open>
  What it is for a projection entry to be \<^verbatim>\<open>$\<close> followed by an integer, written out
  on its own, without the parser, for comparison with \<^verbatim>\<open>parseInput\<close>: the entry
  is some text without \<^verbatim>\<open>$\<close>, then \<^verbatim>\<open>$\<close>, optional white space, an optional sign, one or
  more decimal digits, and a rest that does not go on with a digit; the integer is the
  signed value of the digits and fits a 32-bit \<^verbatim>\<open>int\<close>.
\<close>

definition dollar_integer :: "string \<Rightarrow> int \<Rightarrow> bool" where
  "dollar_integer s v =
     (\<exists>pre ws sg ds rest.
        s = pre @ [CHR ''$''] @ ws @ sg @ ds @ rest
        \<and> CHR ''$'' \<notin> set pre
        \<and> (\<forall>ch \<in> set ws. isspace ch)
        \<and> (sg = [] \<or> sg = ''-'' \<or> sg = ''+'')
        \<and> ds \<noteq> [] \<and> (\<forall>ch \<in> set ds. isdigit ch)
        \<and> (rest = [] \<or> \<not> isdigit (hd rest))
        \<and> v = (if sg = ''-'' then - digits_value 0 ds else digits_value 0 ds)
        \<and> - (2 ^ 31) \<le> v \<and> v \<le> 2 ^ 31 - 1)"

datatype exn = InvalidParameter | IllegalSchemaDeclarationException | OtherException

text \<open>
  The loop of \<^verbatim>\<open>Project::init\<close> over the entries of the \<^verbatim>\<open>projection\<close> setting:
  \<open>columns\<close> is \<^verbatim>\<open>srcschema.columns()\<close>, an \<^verbatim>\<open>unsigned int\<close>, and the cast of
  \<open>projattr\<close> to \<^verbatim>\<open>unsigned int\<close> is the value modulo \<open>2 ^ 32\<close>.
\<close>

fun init_entries :: "nat \<Rightarrow> string list \<Rightarrow> int list \<Rightarrow> exn + int list" where
  "init_entries columns [] projlist = Inr projlist"
| "init_entries columns (projattrstr # rest) projlist =
     (let projattr = parseInput projattrstr
      in if projattr \<le> - 1 then Inl InvalidParameter
         else if columns \<le> nat (projattr mod 2 ^ 32) then Inl IllegalSchemaDeclarationException
         else init_entries columns rest (projlist @ [projattr]))"

text \<open>
  \<^verbatim>\<open>Project::init\<close> ends with \<^verbatim>\<open>MapWrapper::init(root, cfg)\<close>, defined outside these
  files; \<open>base_init\<close> is the exception it throws in this run, if any. The result is the
  exception that leaves \<^verbatim>\<open>init\<close> or the \<open>projlist\<close> it leaves behind.
\<close>

definition Project_init :: "nat \<Rightarrow> exn option \<Rightarrow> string list \<Rightarrow> int list \<Rightarrow> exn + int list" where
  "Project_init columns base_init node projlist =
     (case init_entries columns node projlist of
        Inl e \<Rightarrow> Inl e
      | Inr projlist' \<Rightarrow> (case base_init of Some e \<Rightarrow> Inl e | None \<Rightarrow> Inr projlist'))"

text \<open>
  \<^verbatim>\<open>Project::map\<close> copies column \<open>projlist[i]\<close> of the input tuple to column \<open>i\<close> of
  the output. A tuple is the list of its column values; reading a column the source
  schema does not have is \<open>None\<close>.
\<close>

fun Project_map :: "'v list \<Rightarrow> int list \<Rightarrow> 'v list option" where
  "Project_map tuple [] = Some []"
| "Project_map tuple (p # ps) =
     (if 0 \<le> p \<and> nat p < length tuple
      then (case Project_map tuple ps of None \<Rightarrow> None | Some vs \<Rightarrow> Some (tuple ! nat p # vs))
      else None)"

section \<open>Sticky execution status\<close>

lemma UpdateStatus_returns: "fst (UpdateStatus fs st) = exec_status (snd (UpdateStatus fs st))"
  by (simp add: UpdateStatus_def Let_def)

lemma UpdateStatus_failed_keeps:
  "\<not> ok (exec_status fs) \<Longrightarrow> snd (UpdateStatus fs st) = fs"
  by (simp add: UpdateStatus_def)

lemma UpdateStatus_ok_arg_keeps: "ok st \<Longrightarrow> snd (UpdateStatus fs st) = fs"
  by (simp add: UpdateStatus_def)

lemma UpdateStatus_first_error:
  "ok (exec_status fs) \<Longrightarrow> \<not> ok e \<Longrightarrow> exec_status (snd (UpdateStatus fs e)) = e"
  by (simp add: UpdateStatus_def)

lemma UpdateStatus_calls_failed_keeps:
  "\<not> ok (exec_status fs) \<Longrightarrow> UpdateStatus_calls fs sts = fs"
  by (induction sts arbitrary: fs) (simp_all add: UpdateStatus_failed_keeps)

lemma UpdateStatus_calls_all_ok:
  "\<forall>x \<in> set pre. ok x \<Longrightarrow> UpdateStatus_calls fs pre = fs"
  by (induction pre arbitrary: fs) (simp_all add: UpdateStatus_ok_arg_keeps)

lemma UpdateStatus_calls_append:
  "UpdateStatus_calls fs (xs @ ys) = UpdateStatus_calls (UpdateStatus_calls fs xs) ys"
  by (induction xs arbitrary: fs) simp_all

text \<open>
  C1. On an execution state whose status is still OK, a sequence of UpdateStatus calls
  whose first non-OK argument is \<open>e\<close> (the calls \<open>pre\<close> before it all pass OK) leaves
  \<open>exec_status = e\<close>, whatever the later calls \<open>post\<close> pass (OK or other errors).
  Every call returns the status the object holds after it. Once a status is not OK no
  call changes it, so after any \<open>UpdateStatus err\<close> with \<open>err\<close> not OK the status is
  never OK again.
\<close>

theorem UpdateStatus_sticky:
  "(ok (exec_status fs) \<and> (\<forall>x \<in> set pre. ok x) \<and> \<not> ok e \<longrightarrow>
      exec_status (UpdateStatus_calls fs (pre @ e # post)) = e)
   \<and> fst (UpdateStatus fs st) = exec_status (snd (UpdateStatus fs st))
   \<and> (\<not> ok (exec_status fs) \<longrightarrow> snd (UpdateStatus fs st) = fs)
   \<and> (\<not> ok err \<longrightarrow>
        \<not> ok (exec_status (UpdateStatus_calls (snd (UpdateStatus fs' err)) later))
        \<and> exec_status (UpdateStatus_calls (snd (UpdateStatus fs' err)) later)
            = exec_status (snd (UpdateStatus fs' err)))"
proof (intro conjI impI)
  assume a: "ok (exec_status fs) \<and> (\<forall>x \<in> set pre. ok x) \<and> \<not> ok e"
  then have "UpdateStatus_calls fs pre = fs"
    by (simp add: UpdateStatus_calls_all_ok)
  then have "UpdateStatus_calls fs (pre @ e # post)
      = UpdateStatus_calls (snd (UpdateStatus fs e)) post"
    by (simp add: UpdateStatus_calls_append)
  moreover have e: "exec_status (snd (UpdateStatus fs e)) = e"
    using a by (simp add: UpdateStatus_first_error)
  ultimately show "exec_status (UpdateStatus_calls fs (pre @ e # post)) = e"
    using a by (simp add: UpdateStatus_calls_failed_keeps)
next
  show "fst (UpdateStatus fs st) = exec_status (snd (UpdateStatus fs st))"
    by (rule UpdateStatus_returns)
next
  assume "\<not> ok (exec_status fs)"
  then show "snd (UpdateStatus fs st) = fs"
    by (rule UpdateStatus_failed_keeps)
next
  assume n: "\<not> ok err"
  have bad: "\<not> ok (exec_status (snd (UpdateStatus fs' err)))"
    using n by (simp add: UpdateStatus_def)
  then have keep: "UpdateStatus_calls (snd (UpdateStatus fs' err)) later = snd (UpdateStatus fs' err)"
    by (rule UpdateStatus_calls_failed_keeps)
  show "\<not> ok (exec_status (UpdateStatus_calls (snd (UpdateStatus fs' err)) later))"
    using bad keep by simp
  show "exec_status (UpdateStatus_calls (snd (UpdateStatus fs' err)) later)
      = exec_status (snd (UpdateStatus fs' err))"
    using keep by simp
qed

theorem UpdateStatus_sticky_witness:
  "exec_status (UpdateStatus_calls \<lparr>backend_num = 0, exec_status = OK\<rparr>
      ([OK, OK] @ CANCELLED # [OK, MEM_LIMIT_EXCEEDED, OK])) = CANCELLED
   \<and> \<not> ok (exec_status (UpdateStatus_calls
        (snd (UpdateStatus \<lparr>backend_num = 0, exec_status = OK\<rparr> MEM_LIMIT_EXCEEDED))
        [OK, CANCELLED]))
   \<and> snd (UpdateStatus \<lparr>backend_num = 0, exec_status = CANCELLED\<rparr> OK)
        = \<lparr>backend_num = 0, exec_status = CANCELLED\<rparr>"
  using UpdateStatus_sticky [of "\<lparr>backend_num = 0, exec_status = OK\<rparr>" "[OK, OK]" CANCELLED
      "[OK, MEM_LIMIT_EXCEEDED, OK]" OK MEM_LIMIT_EXCEEDED
      "\<lparr>backend_num = 0, exec_status = OK\<rparr>" "[OK, CANCELLED]"]
    UpdateStatus_sticky [of "\<lparr>backend_num = 0, exec_status = CANCELLED\<rparr>" "[]" CANCELLED
      "[]" OK CANCELLED "\<lparr>backend_num = 0, exec_status = OK\<rparr>" "[]"]
  by (simp add: CANCELLED_def MEM_LIMIT_EXCEEDED_def UpdateStatus_def)




section \<open>High water mark counters\<close>

lemma sint_add_no_overflow:
  "- (2 ^ 63) \<le> sint (a :: 64 word) + sint b \<Longrightarrow> sint a + sint b < 2 ^ 63
     \<Longrightarrow> sint (a + b) = sint a + sint b"
  by (simp add: sint_word_add signed_take_bit_int_eq_self)

lemma sint_UpdateMax: "sint (AtomicInt_UpdateMax a v) = max (sint a) (sint v)"
  by (simp add: AtomicInt_UpdateMax_def word_sless_alt max_def)

lemma HighWaterMarkCounter_Update_fields:
  "HighWaterMarkCounter_Update c delta =
     c\<lparr>m_current_value := m_current_value c + delta,
       m_value := AtomicInt_UpdateMax (m_value c) (m_current_value c + delta)\<rparr>"
  by (simp add: HighWaterMarkCounter_Update_def AtomicInt_UpdateAndFetch_def)

text \<open>
  C4. \<^verbatim>\<open>Update(delta)\<close> on a high water mark counter adds \<open>delta\<close> to the current value
  (64-bit addition) and makes \<^verbatim>\<open>value()\<close> the larger of its old value and the new current
  value (compared as signed numbers). On a fresh counter the updates +3, +2, -4, +1 end
  with current value 2 and value 5.
\<close>

theorem HighWaterMarkCounter_Update_spec:
  "current_value (HighWaterMarkCounter_Update c delta) = current_value c + delta
   \<and> sint (value (HighWaterMarkCounter_Update c delta))
       = max (sint (value c)) (sint (current_value c + delta))
   \<and> m_type (HighWaterMarkCounter_Update c delta) = m_type c
   \<and> current_value (HighWaterMarkCounter_new t) = 0
   \<and> value (HighWaterMarkCounter_new t) = 0
   \<and> current_value (HighWaterMarkCounter_Updates (HighWaterMarkCounter_new t) [3, 2, - 4, 1]) = 2
   \<and> value (HighWaterMarkCounter_Updates (HighWaterMarkCounter_new t) [3, 2, - 4, 1]) = 5"
  by (simp add: HighWaterMarkCounter_Update_fields sint_UpdateMax value_def current_value_def
      HighWaterMarkCounter_new_def AtomicInt_UpdateMax_def word_sless_alt)

lemma TryUpdate_unfold:
  "HighWaterMarkCounter_TryUpdate c delta mx =
     (if mx <s m_current_value c + delta then Some (False, c)
      else Some (True, c\<lparr>m_current_value := m_current_value c + delta,
                         m_value := AtomicInt_UpdateMax (m_value c) (m_current_value c + delta)\<rparr>))"
  by (subst HighWaterMarkCounter_TryUpdate.simps) (simp add: AtomicInt_Swap_def Let_def)

text \<open>
  C5, as the code has it. Take a counter with current value \<open>c\<close> and a \<open>delta\<close> whose sum
  with \<open>c\<close> fits a signed 64-bit integer. Then \<^verbatim>\<open>TryUpdate(delta, max)\<close> returns false and
  leaves the counter as it is when \<open>c + delta > max\<close>; otherwise it returns true, the current
  value is \<open>c + delta\<close> and the peak is the larger of the old peak and \<open>c + delta\<close>. Without
  the condition the same holds of the 64-bit sum the code computes, which wraps around. In
  both cases the call returns.
\<close>

theorem HighWaterMarkCounter_TryUpdate_spec:
  "(- (2 ^ 63) \<le> sint (current_value c) + sint delta
      \<and> sint (current_value c) + sint delta < 2 ^ 63 \<longrightarrow>
        (sint mx < sint (current_value c) + sint delta \<longrightarrow>
           HighWaterMarkCounter_TryUpdate c delta mx = Some (False, c))
        \<and> (sint (current_value c) + sint delta \<le> sint mx \<longrightarrow>
             (\<exists>c'. HighWaterMarkCounter_TryUpdate c delta mx = Some (True, c')
                \<and> sint (current_value c') = sint (current_value c) + sint delta
                \<and> sint (current_value c) + sint delta \<le> sint (value c')
                \<and> sint (value c) \<le> sint (value c')
                \<and> sint (value c') = max (sint (value c)) (sint (current_value c) + sint delta)
                \<and> m_type c' = m_type c)))
   \<and> (sint mx < sint (current_value c + delta) \<longrightarrow>
        HighWaterMarkCounter_TryUpdate c delta mx = Some (False, c))
   \<and> (\<not> sint mx < sint (current_value c + delta) \<longrightarrow>
        (\<exists>c'. HighWaterMarkCounter_TryUpdate c delta mx = Some (True, c')
           \<and> current_value c' = current_value c + delta
           \<and> sint (current_value c + delta) \<le> sint (value c')
           \<and> sint (value c) \<le> sint (value c')
           \<and> sint (value c') = max (sint (value c)) (sint (current_value c + delta))
           \<and> m_type c' = m_type c))
   \<and> (- (2 ^ 63) \<le> sint (current_value c) + sint delta
        \<and> sint (current_value c) + sint delta < 2 ^ 63 \<longrightarrow>
        sint (current_value c + delta) = sint (current_value c) + sint delta)"
proof -
  have wrapped_false: "sint mx < sint (current_value c + delta) \<longrightarrow>
        HighWaterMarkCounter_TryUpdate c delta mx = Some (False, c)"
    by (simp add: TryUpdate_unfold word_sless_alt current_value_def)
  have wrapped_true: "\<not> sint mx < sint (current_value c + delta) \<longrightarrow>
        (\<exists>c'. HighWaterMarkCounter_TryUpdate c delta mx = Some (True, c')
           \<and> current_value c' = current_value c + delta
           \<and> sint (current_value c + delta) \<le> sint (value c')
           \<and> sint (value c) \<le> sint (value c')
           \<and> sint (value c') = max (sint (value c)) (sint (current_value c + delta))
           \<and> m_type c' = m_type c)"
    by (simp add: TryUpdate_unfold word_sless_alt sint_UpdateMax value_def current_value_def)
  have fits: "- (2 ^ 63) \<le> sint (current_value c) + sint delta
        \<and> sint (current_value c) + sint delta < 2 ^ 63 \<longrightarrow>
        sint (current_value c + delta) = sint (current_value c) + sint delta"
    by (simp add: sint_add_no_overflow)
  have exact: "- (2 ^ 63) \<le> sint (current_value c) + sint delta
      \<and> sint (current_value c) + sint delta < 2 ^ 63 \<longrightarrow>
        (sint mx < sint (current_value c) + sint delta \<longrightarrow>
           HighWaterMarkCounter_TryUpdate c delta mx = Some (False, c))
        \<and> (sint (current_value c) + sint delta \<le> sint mx \<longrightarrow>
             (\<exists>c'. HighWaterMarkCounter_TryUpdate c delta mx = Some (True, c')
                \<and> sint (current_value c') = sint (current_value c) + sint delta
                \<and> sint (current_value c) + sint delta \<le> sint (value c')
                \<and> sint (value c) \<le> sint (value c')
                \<and> sint (value c') = max (sint (value c)) (sint (current_value c) + sint delta)
                \<and> m_type c' = m_type c))"
  proof
    assume "- (2 ^ 63) \<le> sint (current_value c) + sint delta
      \<and> sint (current_value c) + sint delta < 2 ^ 63"
    then have eq: "sint (current_value c + delta) = sint (current_value c) + sint delta"
      using fits by blast
    show "(sint mx < sint (current_value c) + sint delta \<longrightarrow>
           HighWaterMarkCounter_TryUpdate c delta mx = Some (False, c))
        \<and> (sint (current_value c) + sint delta \<le> sint mx \<longrightarrow>
             (\<exists>c'. HighWaterMarkCounter_TryUpdate c delta mx = Some (True, c')
                \<and> sint (current_value c') = sint (current_value c) + sint delta
                \<and> sint (current_value c) + sint delta \<le> sint (value c')
                \<and> sint (value c) \<le> sint (value c')
                \<and> sint (value c') = max (sint (value c)) (sint (current_value c) + sint delta)
                \<and> m_type c' = m_type c))"
      using wrapped_false wrapped_true unfolding eq [symmetric]
      by (auto simp: not_less)
  qed
  show ?thesis
    by (intro conjI exact wrapped_false wrapped_true fits)
qed

theorem HighWaterMarkCounter_TryUpdate_spec_witness:
  "HighWaterMarkCounter_TryUpdate \<lparr>m_value = 7, m_type = BYTES, m_current_value = 5\<rparr> 6 10 = Some (False, \<lparr>m_value = 7, m_type = BYTES, m_current_value = 5\<rparr>)
   \<and> (\<exists>c'. HighWaterMarkCounter_TryUpdate \<lparr>m_value = 7, m_type = BYTES, m_current_value = 5\<rparr> 5 10 = Some (True, c')
         \<and> sint (current_value c') = 10 \<and> sint (value c') = 10)"
proof -
  have cur: "sint (current_value \<lparr>m_value = 7, m_type = BYTES, m_current_value = 5\<rparr>) = 5"
    by (simp add: current_value_def)
  have val: "sint (value \<lparr>m_value = 7, m_type = BYTES, m_current_value = 5\<rparr>) = 7"
    by (simp add: value_def)
  have fit6: "- (2 ^ 63) \<le> sint (current_value \<lparr>m_value = 7, m_type = BYTES, m_current_value = 5\<rparr>) + sint (6 :: 64 word)
      \<and> sint (current_value \<lparr>m_value = 7, m_type = BYTES, m_current_value = 5\<rparr>) + sint (6 :: 64 word) < 2 ^ 63"
    by (simp add: cur)
  have fit5: "- (2 ^ 63) \<le> sint (current_value \<lparr>m_value = 7, m_type = BYTES, m_current_value = 5\<rparr>) + sint (5 :: 64 word)
      \<and> sint (current_value \<lparr>m_value = 7, m_type = BYTES, m_current_value = 5\<rparr>) + sint (5 :: 64 word) < 2 ^ 63"
    by (simp add: cur)
  have over: "sint (10 :: 64 word) < sint (current_value \<lparr>m_value = 7, m_type = BYTES, m_current_value = 5\<rparr>) + sint (6 :: 64 word)"
    by (simp add: cur)
  have within: "sint (current_value \<lparr>m_value = 7, m_type = BYTES, m_current_value = 5\<rparr>) + sint (5 :: 64 word) \<le> sint (10 :: 64 word)"
    by (simp add: cur)
  note t6 = HighWaterMarkCounter_TryUpdate_spec [of "\<lparr>m_value = 7, m_type = BYTES, m_current_value = 5\<rparr>" 6 10]
  note t5 = HighWaterMarkCounter_TryUpdate_spec [of "\<lparr>m_value = 7, m_type = BYTES, m_current_value = 5\<rparr>" 5 10]
  have a: "HighWaterMarkCounter_TryUpdate \<lparr>m_value = 7, m_type = BYTES, m_current_value = 5\<rparr> 6 10 = Some (False, \<lparr>m_value = 7, m_type = BYTES, m_current_value = 5\<rparr>)"
    using t6 fit6 over by blast
  from t5 fit5 within obtain c' where
    r: "HighWaterMarkCounter_TryUpdate \<lparr>m_value = 7, m_type = BYTES, m_current_value = 5\<rparr> 5 10 = Some (True, c')"
       "sint (current_value c') = sint (current_value \<lparr>m_value = 7, m_type = BYTES, m_current_value = 5\<rparr>) + sint (5 :: 64 word)"
       "sint (value c') = max (sint (value \<lparr>m_value = 7, m_type = BYTES, m_current_value = 5\<rparr>)) (sint (current_value \<lparr>m_value = 7, m_type = BYTES, m_current_value = 5\<rparr>) + sint (5 :: 64 word))"
    by blast
  have "sint (current_value c') = 10" using r(2) by (simp add: cur)
  moreover have "sint (value c') = 10" using r(3) by (simp add: cur val)
  ultimately have b: "\<exists>c'. HighWaterMarkCounter_TryUpdate \<lparr>m_value = 7, m_type = BYTES, m_current_value = 5\<rparr> 5 10 = Some (True, c')
         \<and> sint (current_value c') = 10 \<and> sint (value c') = 10"
    using r(1) by blast
  show ?thesis using a b by (rule conjI)
qed

theorem HighWaterMarkCounter_TryUpdate_overflow_counterexample:
  "sint (100 :: 64 word)
      < sint (current_value \<lparr>m_value = 1, m_type = BYTES, m_current_value = 1\<rparr>)
        + sint (0x7FFFFFFFFFFFFFFF :: 64 word)
   \<and> HighWaterMarkCounter_TryUpdate \<lparr>m_value = 1, m_type = BYTES, m_current_value = 1\<rparr>
        0x7FFFFFFFFFFFFFFF 100
      = Some (True, \<lparr>m_value = 1, m_type = BYTES, m_current_value = 0x8000000000000000\<rparr>)
   \<and> sint (0x8000000000000000 :: 64 word) = - (2 ^ 63)"
  by (simp add: TryUpdate_unfold AtomicInt_UpdateMax_def word_sless_alt current_value_def)


section \<open>Counter registration\<close>

lemma AddCounter_existing: "counter_map P n = Some c \<Longrightarrow> AddCounter P n t par = (c, P)"
  by (simp add: AddCounter_def)

lemma AddCounter_registers:
  "counter_map (snd (AddCounter P n t par)) n = Some (fst (AddCounter P n t par))"
  by (simp add: AddCounter_def Let_def split: option.splits)

lemma AddCounter_keeps:
  "counter_map P m = Some c \<Longrightarrow> counter_map (snd (AddCounter P n t par)) m = Some c"
  by (auto simp: AddCounter_def Let_def split: option.splits)

text \<open>
  C9. Adding a counter under a name a second time returns the counter of the first call and
  leaves the profile as the first call left it (no second counter is allocated), whatever
  type and parent the second call passes. After \<^verbatim>\<open>AddCounter\<close>, \<^verbatim>\<open>GetCounter\<close> of the
  name returns the counter that was returned. A counter \<open>c\<close> registered under a name \<open>m\<close>
  is what \<^verbatim>\<open>GetCounter m\<close> returns, and it stays so when further counters are added: a
  name has one counter.
\<close>

theorem AddCounter_GetCounter:
  "fst (AddCounter (snd (AddCounter P n t par)) n t' par') = fst (AddCounter P n t par)
   \<and> snd (AddCounter (snd (AddCounter P n t par)) n t' par') = snd (AddCounter P n t par)
   \<and> GetCounter (snd (AddCounter P n t par)) n = Some (fst (AddCounter P n t par))
   \<and> (counter_map P m = Some c \<longrightarrow>
        GetCounter P m = Some c \<and> GetCounter (snd (AddCounter P n t par)) m = Some c)"
proof -
  have reg: "counter_map (snd (AddCounter P n t par)) n = Some (fst (AddCounter P n t par))"
    by (rule AddCounter_registers)
  have again: "AddCounter (snd (AddCounter P n t par)) n t' par'
      = (fst (AddCounter P n t par), snd (AddCounter P n t par))"
    using reg by (rule AddCounter_existing)
  show ?thesis
    using reg again by (simp add: GetCounter_def AddCounter_keeps)
qed

theorem AddCounter_GetCounter_witness:
  "counter_map (snd (AddCounter (RuntimeProfile_new ''p'') ''rows'' UNIT [])) ''rows'' = Some 0
   \<and> GetCounter (snd (AddCounter (snd (AddCounter (RuntimeProfile_new ''p'') ''rows'' UNIT []))
                        ''bytes'' BYTES [])) ''rows'' = Some 0
   \<and> fst (AddCounter (snd (AddCounter (snd (AddCounter (RuntimeProfile_new ''p'') ''rows'' UNIT []))
                        ''bytes'' BYTES [])) ''bytes'' BYTES []) = 1"
proof -
  have r: "counter_map (snd (AddCounter (RuntimeProfile_new ''p'') ''rows'' UNIT [])) ''rows'' = Some 0"
    by (simp add: AddCounter_def RuntimeProfile_new_def)
  have b: "fst (AddCounter (snd (AddCounter (RuntimeProfile_new ''p'') ''rows'' UNIT []))
                  ''bytes'' BYTES []) = 1"
    by (simp add: AddCounter_def RuntimeProfile_new_def)
  show ?thesis
    using r b
      AddCounter_GetCounter [of "snd (AddCounter (RuntimeProfile_new ''p'') ''rows'' UNIT [])"
        "''bytes''" BYTES "[]" BYTES "[]" "''rows''" 0]
    by simp
qed


section \<open>RuntimeState: the error log\<close>

lemma to_size_t_nonneg: "0 \<le> sint m \<Longrightarrow> to_size_t m = nat (sint m)"
proof -
  assume a: "0 \<le> sint m"
  have "sint m < 2 ^ (LENGTH(32) - 1)" by (rule sint_lt)
  then have "sint m < 2 ^ 64" by simp
  with a show ?thesis by (simp add: to_size_t_def)
qed

lemma LogError_options: "query_options (snd (LogError s e)) = query_options s"
  by (simp add: LogError_def)

lemma LogError_calls_options: "query_options (LogError_calls s es) = query_options s"
  by (induction es arbitrary: s) (simp_all add: LogError_options)

lemma LogError_bounded:
  "0 \<le> sint (max_errors (query_options s))
   \<Longrightarrow> length (error_log s) \<le> nat (sint (max_errors (query_options s)))
   \<Longrightarrow> length (error_log (snd (LogError s e))) \<le> nat (sint (max_errors (query_options s)))"
  by (simp add: LogError_def to_size_t_nonneg)

lemma LogError_calls_bounded:
  "0 \<le> sint (max_errors (query_options s))
   \<Longrightarrow> length (error_log s) \<le> nat (sint (max_errors (query_options s)))
   \<Longrightarrow> length (error_log (LogError_calls s es)) \<le> nat (sint (max_errors (query_options s)))"
proof (induction es arbitrary: s)
  case Nil
  then show ?case by simp
next
  case (Cons e es)
  have "length (error_log (LogError_calls (snd (LogError s e)) es))
      \<le> nat (sint (max_errors (query_options (snd (LogError s e)))))"
    using Cons.prems by (intro Cons.IH) (simp_all add: LogError_options LogError_bounded)
  then show ?case by (simp add: LogError_options)
qed

lemma LogError_full:
  "0 \<le> sint (max_errors (query_options s))
   \<Longrightarrow> nat (sint (max_errors (query_options s))) \<le> length (error_log s)
   \<Longrightarrow> LogError s e = (False, s)"
  by (simp add: LogError_def to_size_t_nonneg)

lemma LogError_room:
  "0 \<le> sint (max_errors (query_options s))
   \<Longrightarrow> length (error_log s) < nat (sint (max_errors (query_options s)))
   \<Longrightarrow> LogError s e = (True, s\<lparr>error_log := error_log s @ [e]\<rparr>)"
  by (simp add: LogError_def to_size_t_nonneg)

lemma GetUnreportedErrors_again:
  "GetUnreportedErrors (snd (GetUnreportedErrors s v)) w = (w, snd (GetUnreportedErrors s v))"
  by (simp add: GetUnreportedErrors_def)

lemma LogError_watermark: "unreported_error_idx (snd (LogError s e)) = unreported_error_idx s"
  by (simp add: LogError_def)

lemma LogError_log_grows: "length (error_log s) \<le> length (error_log (snd (LogError s e)))"
  by (simp add: LogError_def)

lemma LogError_calls_watermark:
  "unreported_error_idx s \<le> length (error_log s)
   \<Longrightarrow> unreported_error_idx (LogError_calls s es) \<le> length (error_log (LogError_calls s es))"
proof (induction es arbitrary: s)
  case Nil
  then show ?case by simp
next
  case (Cons e es)
  have "unreported_error_idx (snd (LogError s e)) \<le> length (error_log (snd (LogError s e)))"
    using Cons.prems LogError_log_grows [of s e] by (simp add: LogError_watermark)
  then show ?case by (simp add: Cons.IH)
qed

lemma GetUnreportedErrors_new:
  "unreported_error_idx s < length (error_log s)
   \<Longrightarrow> GetUnreportedErrors s v
       = (drop (unreported_error_idx s) (error_log s),
          s\<lparr>unreported_error_idx := length (error_log s)\<rparr>)"
  by (simp add: GetUnreportedErrors_def)

lemma GetUnreportedErrors_none:
  "\<not> unreported_error_idx s < length (error_log s) \<Longrightarrow> GetUnreportedErrors s v = (v, s)"
  by (simp add: GetUnreportedErrors_def)

lemma GetUnreportedErrors_watermark:
  "length (error_log s) \<le> unreported_error_idx (snd (GetUnreportedErrors s v))"
  by (simp add: GetUnreportedErrors_def)

lemma GetUnreportedErrors_watermark_end:
  "unreported_error_idx s \<le> length (error_log s)
   \<Longrightarrow> unreported_error_idx (snd (GetUnreportedErrors s v)) = length (error_log s)"
  by (simp add: GetUnreportedErrors_def)

lemma GetUnreportedErrors_log: "error_log (snd (GetUnreportedErrors s v)) = error_log s"
  by (simp add: GetUnreportedErrors_def)

text \<open>
  C3, as the code has it. The bound holds for a run whose \<open>max_errors\<close> is not negative
  (\<^verbatim>\<open>Init\<close> makes it positive) and whose log starts within the bound (a new state has an
  empty log): no sequence of \<^verbatim>\<open>LogError\<close> calls takes the log beyond \<open>max_errors\<close>
  entries, and a call on a log that has reached \<open>max_errors\<close> returns false and changes
  nothing. \<^verbatim>\<open>GetUnreportedErrors\<close> hands out the entries from the watermark on, when there
  are any, and moves the watermark to the end of the log; otherwise it writes nothing. It
  never changes the log. After a call the watermark is not below the end of the log, and
  it is the end of the log when it started within the log, which \<^verbatim>\<open>LogError\<close> calls
  preserve. So a second call with no \<^verbatim>\<open>LogError\<close> in between writes nothing to its
  argument (an empty vector stays empty) and leaves the state as it is.
\<close>

theorem error_log_bounded:
  "(0 \<le> sint (max_errors (query_options s))
      \<and> length (error_log s) \<le> nat (sint (max_errors (query_options s))) \<longrightarrow>
        length (error_log (LogError_calls s es)) \<le> nat (sint (max_errors (query_options s)))
      \<and> max_errors (query_options (LogError_calls s es)) = max_errors (query_options s)
      \<and> (length (error_log s) = nat (sint (max_errors (query_options s))) \<longrightarrow>
            LogError s e = (False, s))
      \<and> (length (error_log s) < nat (sint (max_errors (query_options s))) \<longrightarrow>
            LogError s e = (True, s\<lparr>error_log := error_log s @ [e]\<rparr>)))
   \<and> (unreported_error_idx s < length (error_log s) \<longrightarrow>
        GetUnreportedErrors s v
          = (drop (unreported_error_idx s) (error_log s),
             s\<lparr>unreported_error_idx := length (error_log s)\<rparr>))
   \<and> (\<not> unreported_error_idx s < length (error_log s) \<longrightarrow> GetUnreportedErrors s v = (v, s))
   \<and> error_log (snd (GetUnreportedErrors s v)) = error_log s
   \<and> length (error_log s) \<le> unreported_error_idx (snd (GetUnreportedErrors s v))
   \<and> (unreported_error_idx s \<le> length (error_log s) \<longrightarrow>
        unreported_error_idx (snd (GetUnreportedErrors s v)) = length (error_log s)
        \<and> unreported_error_idx (LogError_calls s es) \<le> length (error_log (LogError_calls s es)))
   \<and> GetUnreportedErrors (snd (GetUnreportedErrors s v)) []
        = ([], snd (GetUnreportedErrors s v))
   \<and> GetUnreportedErrors (snd (GetUnreportedErrors s v)) w
        = (w, snd (GetUnreportedErrors s v))"
proof -
  have bound: "0 \<le> sint (max_errors (query_options s))
      \<and> length (error_log s) \<le> nat (sint (max_errors (query_options s))) \<longrightarrow>
        length (error_log (LogError_calls s es)) \<le> nat (sint (max_errors (query_options s)))
      \<and> max_errors (query_options (LogError_calls s es)) = max_errors (query_options s)
      \<and> (length (error_log s) = nat (sint (max_errors (query_options s))) \<longrightarrow>
            LogError s e = (False, s))
      \<and> (length (error_log s) < nat (sint (max_errors (query_options s))) \<longrightarrow>
            LogError s e = (True, s\<lparr>error_log := error_log s @ [e]\<rparr>))"
    by (simp add: LogError_calls_bounded LogError_calls_options LogError_full LogError_room)
  have new: "unreported_error_idx s < length (error_log s) \<longrightarrow>
        GetUnreportedErrors s v
          = (drop (unreported_error_idx s) (error_log s),
             s\<lparr>unreported_error_idx := length (error_log s)\<rparr>)"
    by (simp add: GetUnreportedErrors_new)
  have none: "\<not> unreported_error_idx s < length (error_log s) \<longrightarrow> GetUnreportedErrors s v = (v, s)"
    by (simp add: GetUnreportedErrors_none)
  have log: "error_log (snd (GetUnreportedErrors s v)) = error_log s"
    by (rule GetUnreportedErrors_log)
  have mark: "length (error_log s) \<le> unreported_error_idx (snd (GetUnreportedErrors s v))"
    by (rule GetUnreportedErrors_watermark)
  have inv: "unreported_error_idx s \<le> length (error_log s) \<longrightarrow>
        unreported_error_idx (snd (GetUnreportedErrors s v)) = length (error_log s)
        \<and> unreported_error_idx (LogError_calls s es) \<le> length (error_log (LogError_calls s es))"
    by (simp add: GetUnreportedErrors_watermark_end LogError_calls_watermark)
  have again0: "GetUnreportedErrors (snd (GetUnreportedErrors s v)) []
        = ([], snd (GetUnreportedErrors s v))"
    by (rule GetUnreportedErrors_again)
  have again: "GetUnreportedErrors (snd (GetUnreportedErrors s v)) w
        = (w, snd (GetUnreportedErrors s v))"
    by (rule GetUnreportedErrors_again)
  show ?thesis
    by (intro conjI bound new none log mark inv again0 again)
qed

theorem error_log_bounded_witness:
  "length (error_log (LogError_calls (RuntimeState_planning 1024 None \<lparr>disable_codegen = True, max_errors = 2, batch_size = 0\<rparr>) [''a'', ''b'', ''c''])) \<le> 2
   \<and> fst (GetUnreportedErrors (LogError_calls (RuntimeState_planning 1024 None \<lparr>disable_codegen = True, max_errors = 2, batch_size = 0\<rparr>) [''a'', ''b'', ''c'']) []) = [''a'', ''b'']
   \<and> unreported_error_idx
        (snd (GetUnreportedErrors (LogError_calls (RuntimeState_planning 1024 None \<lparr>disable_codegen = True, max_errors = 2, batch_size = 0\<rparr>) [''a'', ''b'', ''c'']) [])) = 2
   \<and> fst (GetUnreportedErrors
        (snd (GetUnreportedErrors (LogError_calls (RuntimeState_planning 1024 None \<lparr>disable_codegen = True, max_errors = 2, batch_size = 0\<rparr>) [''a'', ''b'', ''c'']) [])) []) = []"
proof -
  let ?S = "(RuntimeState_planning 1024 None \<lparr>disable_codegen = True, max_errors = 2, batch_size = 0\<rparr>)"
  let ?L = "LogError_calls ?S [''a'', ''b'', ''c'']"
  have m: "sint (max_errors (query_options ?S)) = 2"
    by (simp add: RuntimeState_planning_def RuntimeState_fields_def)
  have l: "error_log ?S = []"
    by (simp add: RuntimeState_planning_def RuntimeState_fields_def)
  have h: "0 \<le> sint (max_errors (query_options ?S))
      \<and> length (error_log ?S) \<le> nat (sint (max_errors (query_options ?S)))"
    by (simp add: m l)
  have logL: "error_log ?L = [''a'', ''b'']"
    by (simp add: RuntimeState_planning_def RuntimeState_fields_def LogError_def to_size_t_def)
  have idxL: "unreported_error_idx ?L = 0"
    by (simp add: RuntimeState_planning_def RuntimeState_fields_def LogError_def to_size_t_def)
  have unreported: "unreported_error_idx ?L < length (error_log ?L)"
    by (simp only: logL idxL) simp
  note tS = error_log_bounded [of ?S "[''a'', ''b'', ''c'']" "''a''" "[]" "[]"]
  note tL = error_log_bounded [of ?L "[]" "''a''" "[]" "[]"]
  have "length (error_log ?L) \<le> nat (sint (max_errors (query_options ?S)))"
    using tS h by blast
  then have a: "length (error_log ?L) \<le> 2"
    by (simp only: m nat_numeral)
  have first: "GetUnreportedErrors ?L []
      = (drop (unreported_error_idx ?L) (error_log ?L),
         ?L\<lparr>unreported_error_idx := length (error_log ?L)\<rparr>)"
    using tL unreported by blast
  have b: "fst (GetUnreportedErrors ?L []) = [''a'', ''b'']"
    by (simp only: first fst_conv logL idxL drop_0)
  have c: "unreported_error_idx (snd (GetUnreportedErrors ?L [])) = 2"
    by (simp only: first snd_conv logL) simp
  have d: "fst (GetUnreportedErrors (snd (GetUnreportedErrors ?L [])) []) = []"
    using tL by simp
  show ?thesis
    by (intro conjI a b c d)
qed

theorem error_log_unbounded_counterexample:
  "sint (max_errors (query_options (RuntimeState_planning 1024 None
        \<lparr>disable_codegen = True, max_errors = - 1, batch_size = 0\<rparr>))) = - 1
   \<and> error_log (RuntimeState_planning 1024 None
        \<lparr>disable_codegen = True, max_errors = - 1, batch_size = 0\<rparr>) = []
   \<and> fst (LogError (RuntimeState_planning 1024 None
        \<lparr>disable_codegen = True, max_errors = - 1, batch_size = 0\<rparr>) ''e'')
   \<and> length (error_log (LogError_calls (RuntimeState_planning 1024 None
        \<lparr>disable_codegen = True, max_errors = - 1, batch_size = 0\<rparr>) [''e'', ''f''])) = 2"
  by (simp add: RuntimeState_planning_def RuntimeState_fields_def LogError_def to_size_t_def)

text \<open>
  C6. \<^verbatim>\<open>ErrorLogIsEmpty\<close> returns true exactly when the log has an entry: on the empty
  log of a new state it returns false, and after one logged error it returns true.
\<close>

theorem ErrorLogIsEmpty_inverted:
  "ErrorLogIsEmpty s = (error_log s \<noteq> [])
   \<and> error_log (RuntimeState_planning 1024 None
        \<lparr>disable_codegen = True, max_errors = 100, batch_size = 0\<rparr>) = []
   \<and> ErrorLogIsEmpty (RuntimeState_planning 1024 None
        \<lparr>disable_codegen = True, max_errors = 100, batch_size = 0\<rparr>) = False
   \<and> ErrorLogIsEmpty (snd (LogError (RuntimeState_planning 1024 None
        \<lparr>disable_codegen = True, max_errors = 100, batch_size = 0\<rparr>) ''e'')) = True"
  by (simp add: ErrorLogIsEmpty_def RuntimeState_planning_def RuntimeState_fields_def
      LogError_def to_size_t_def)


section \<open>RuntimeState: Init\<close>

lemma Init_rest_status: "fst (Init_rest D s) = OK"
  by (simp add: Init_rest_def Let_def split_def)

lemma Init_rest_options: "query_options (snd (Init_rest D s)) = Init_options D (query_options s)"
  by (simp add: Init_rest_def Let_def split_def)

lemma CreateCodegen_options: "query_options (snd (CreateCodegen load s)) = query_options s"
  by (simp add: CreateCodegen_def)

lemma Init_ok_options:
  "ok (fst (Init D load s fid env))
   \<Longrightarrow> query_options (snd (Init D load s fid env)) = Init_options D (query_options s)"
  by (simp add: Init_def Let_def split_def Init_rest_options CreateCodegen_options
      split: if_splits)

lemma Init_ok_iff:
  "ok (fst (Init D load s fid env))
     = (disable_codegen (query_options s) \<or> codegen s \<noteq> None \<or> ok (fst load))"
  by (auto simp: Init_def Let_def split_def Init_rest_status CreateCodegen_def)

lemma Init_failed_options:
  "\<not> ok (fst (Init D load s fid env))
   \<Longrightarrow> query_options (snd (Init D load s fid env)) = query_options s"
  by (simp add: Init_def Let_def split_def Init_rest_status CreateCodegen_options
      split: if_splits)

lemma Init_options_max_errors:
  "max_errors (Init_options D qo) = (if sint (max_errors qo) \<le> 0 then 100 else max_errors qo)"
  by (simp add: Init_options_def Let_def)

lemma Init_options_batch_size:
  "batch_size (Init_options D qo) = (if sint (batch_size qo) \<le> 0 then D else batch_size qo)"
  by (simp add: Init_options_def Let_def)

text \<open>
  C8, as the code has it. \<^verbatim>\<open>Init\<close> returns OK exactly when code generation is disabled,
  a code generator exists already or loading the IR succeeds. When it returns OK, a
  \<open>max_errors\<close> that came in non-positive (0 included) is 100, a \<open>batch_size\<close> that came
  in non-positive is \<open>DEFAULT_BATCH_SIZE\<close>, positive values of either are unchanged, and
  \<open>max_errors\<close> is positive. When it returns an error the options are as they came in.
\<close>

theorem Init_clamps_options:
  "(ok (fst (Init D load s fid env)) \<longrightarrow>
      (sint (max_errors (query_options s)) \<le> 0 \<longrightarrow>
         max_errors (query_options (snd (Init D load s fid env))) = 100)
      \<and> (0 < sint (max_errors (query_options s)) \<longrightarrow>
         max_errors (query_options (snd (Init D load s fid env))) = max_errors (query_options s))
      \<and> (sint (batch_size (query_options s)) \<le> 0 \<longrightarrow>
         batch_size (query_options (snd (Init D load s fid env))) = D)
      \<and> (0 < sint (batch_size (query_options s)) \<longrightarrow>
         batch_size (query_options (snd (Init D load s fid env))) = batch_size (query_options s))
      \<and> 0 < sint (max_errors (query_options (snd (Init D load s fid env)))))
   \<and> (ok (fst (Init D load s fid env))
        = (disable_codegen (query_options s) \<or> codegen s \<noteq> None \<or> ok (fst load)))
   \<and> (\<not> ok (fst (Init D load s fid env)) \<longrightarrow>
        query_options (snd (Init D load s fid env)) = query_options s)"
proof (intro conjI impI)
  show "ok (fst (Init D load s fid env))
        = (disable_codegen (query_options s) \<or> codegen s \<noteq> None \<or> ok (fst load))"
    by (rule Init_ok_iff)
next
  assume "\<not> ok (fst (Init D load s fid env))"
  then show "query_options (snd (Init D load s fid env)) = query_options s"
    by (rule Init_failed_options)
next
  assume a: "ok (fst (Init D load s fid env))"
  show "0 < sint (max_errors (query_options (snd (Init D load s fid env))))"
    by (simp add: Init_ok_options [OF a] Init_options_max_errors)
qed (simp_all add: Init_ok_options Init_options_max_errors Init_options_batch_size)

theorem Init_clamps_options_witness:
  "max_errors (query_options (snd (Init 1024 (OK, \<lparr>optimizations_enabled = False,
        codegen_profile_name = ''CodeGen''\<rparr>)
      (RuntimeState_fields \<lparr>disable_codegen = False, max_errors = 0, batch_size = - 5\<rparr> None
         ''Fragment 0'') (0, 0) None))) = 100
   \<and> batch_size (query_options (snd (Init 1024 (OK, \<lparr>optimizations_enabled = False,
        codegen_profile_name = ''CodeGen''\<rparr>)
      (RuntimeState_fields \<lparr>disable_codegen = False, max_errors = 0, batch_size = - 5\<rparr> None
         ''Fragment 0'') (0, 0) None))) = 1024
   \<and> max_errors (query_options (snd (Init 1024 (OK, \<lparr>optimizations_enabled = False,
        codegen_profile_name = ''CodeGen''\<rparr>)
      (RuntimeState_fields \<lparr>disable_codegen = True, max_errors = 7, batch_size = 16\<rparr> None
         ''Fragment 0'') (0, 0) None))) = 7
   \<and> batch_size (query_options (snd (Init 1024 (Status_msg ''no IR'', \<lparr>optimizations_enabled = False,
        codegen_profile_name = ''CodeGen''\<rparr>)
      (RuntimeState_fields \<lparr>disable_codegen = False, max_errors = 0, batch_size = - 5\<rparr> None
         ''Fragment 0'') (0, 0) None))) = - 5"
  using Init_clamps_options [of 1024 "(OK, \<lparr>optimizations_enabled = False,
        codegen_profile_name = ''CodeGen''\<rparr>)"
      "RuntimeState_fields \<lparr>disable_codegen = False, max_errors = 0, batch_size = - 5\<rparr> None
         ''Fragment 0''" "(0, 0)" None]
    Init_clamps_options [of 1024 "(OK, \<lparr>optimizations_enabled = False,
        codegen_profile_name = ''CodeGen''\<rparr>)"
      "RuntimeState_fields \<lparr>disable_codegen = True, max_errors = 7, batch_size = 16\<rparr> None
         ''Fragment 0''" "(0, 0)" None]
    Init_clamps_options [of 1024 "(Status_msg ''no IR'', \<lparr>optimizations_enabled = False,
        codegen_profile_name = ''CodeGen''\<rparr>)"
      "RuntimeState_fields \<lparr>disable_codegen = False, max_errors = 0, batch_size = - 5\<rparr> None
         ''Fragment 0''" "(0, 0)" None]
  by (simp add: RuntimeState_fields_def Status_msg_def)

theorem Init_early_return_counterexample:
  "\<not> ok (fst (Init 1024 (Status_msg ''no IR'', \<lparr>optimizations_enabled = False,
        codegen_profile_name = ''CodeGen''\<rparr>)
      (RuntimeState_fields \<lparr>disable_codegen = False, max_errors = 0, batch_size = 0\<rparr> None
         ''Fragment 0'') (0, 0) None))
   \<and> max_errors (query_options (snd (Init 1024 (Status_msg ''no IR'', \<lparr>optimizations_enabled = False,
        codegen_profile_name = ''CodeGen''\<rparr>)
      (RuntimeState_fields \<lparr>disable_codegen = False, max_errors = 0, batch_size = 0\<rparr> None
         ''Fragment 0'') (0, 0) None))) = 0
   \<and> batch_size (query_options (snd (Init 1024 (Status_msg ''no IR'', \<lparr>optimizations_enabled = False,
        codegen_profile_name = ''CodeGen''\<rparr>)
      (RuntimeState_fields \<lparr>disable_codegen = False, max_errors = 0, batch_size = 0\<rparr> None
         ''Fragment 0'') (0, 0) None))) = 0"
  by (simp add: Init_def CreateCodegen_def RuntimeState_fields_def Status_msg_def)


lemma Init_error_log: "error_log (snd (Init D load s fid env)) = error_log s"
  by (simp add: Init_def Init_rest_def CreateCodegen_def Let_def split_def)

text \<open>
  A state built by the server-side constructor whose \<^verbatim>\<open>Init\<close> succeeded starts with an
  empty log and a positive bound, so the bound on the error log applies to it.
\<close>

lemma RuntimeState_server_log_bound:
  assumes "ok (fst (Init D load (RuntimeState_fields qo None (''Fragment '' @ pid)) fid env))"
  shows "error_log (RuntimeState_server D load pid fid qo env) = []
     \<and> 0 < sint (max_errors (query_options (RuntimeState_server D load pid fid qo env)))"
proof -
  have "error_log (RuntimeState_server D load pid fid qo env)
      = error_log (RuntimeState_fields qo None (''Fragment '' @ pid))"
    by (simp only: RuntimeState_server_def Init_error_log)
  then have e: "error_log (RuntimeState_server D load pid fid qo env) = []"
    by (simp add: RuntimeState_fields_def)
  have "query_options (RuntimeState_server D load pid fid qo env)
      = Init_options D (query_options (RuntimeState_fields qo None (''Fragment '' @ pid)))"
    unfolding RuntimeState_server_def using assms by (rule Init_ok_options)
  then have "0 < sint (max_errors (query_options (RuntimeState_server D load pid fid qo env)))"
    by (simp add: Init_options_max_errors)
  with e show ?thesis by simp
qed


section \<open>RuntimeState: memory limit exceeded\<close>



lemma LogError_status: "query_status (snd (LogError s e)) = query_status s"
  by (simp add: LogError_def)

lemma MemLimit_detail_present:
  "n = 0 \<or> tr \<noteq> None \<Longrightarrow> \<exists>d. MemLimit_detail pb tr n = Inr d"
  by (auto simp: MemLimit_detail_def)

lemma MemLimit_usage_present:
  "exec_env s = Some env \<Longrightarrow> query_mem_tracker s = Some q
   \<Longrightarrow> MemLimit_usage s = Inr (if LimitExceeded (process_mem_tracker env)
                                 then LogUsage (process_mem_tracker env) else LogUsage q)"
  by (simp add: MemLimit_usage_def)

lemma SetMemLimitExceeded_ok:
  assumes "ok (query_status s)" and "exec_env s = Some env" and "query_mem_tracker s = Some q"
    and "n = 0 \<or> tr \<noteq> None"
  shows "\<exists>pre. SetMemLimitExceeded pb s tr n =
           Inr (MEM_LIMIT_EXCEEDED,
                snd (LogError (s\<lparr>query_status := MEM_LIMIT_EXCEEDED\<rparr>)
                       (pre @ (if LimitExceeded (process_mem_tracker env)
                               then LogUsage (process_mem_tracker env) else LogUsage q))))"
proof -
  obtain d where d: "MemLimit_detail pb tr n = Inr d"
    using MemLimit_detail_present [OF assms(4)] by blast
  have u: "MemLimit_usage (s\<lparr>query_status := MEM_LIMIT_EXCEEDED\<rparr>)
      = Inr (if LimitExceeded (process_mem_tracker env)
             then LogUsage (process_mem_tracker env) else LogUsage q)"
    using assms(2,3) by (simp add: MemLimit_usage_present)
  have "SetMemLimitExceeded pb s tr n =
           Inr (MEM_LIMIT_EXCEEDED,
                snd (LogError (s\<lparr>query_status := MEM_LIMIT_EXCEEDED\<rparr>)
                       ((''Memory Limit Exceeded'' @ [CHR 0x0A] @ d)
                         @ (if LimitExceeded (process_mem_tracker env)
                               then LogUsage (process_mem_tracker env) else LogUsage q))))"
    using assms(1) d u by (simp add: SetMemLimitExceeded_def Let_def LogError_status)
  then show ?thesis by blast
qed








section \<open>OpenWithRetry\<close>

lemma Open_failed_client: "\<not> ok (fst (Open c outcome)) \<Longrightarrow> snd (Open c outcome) = c"
  by (auto simp: Open_def split: if_splits option.splits)

lemma loop_success:
  "ok (attempt net c n)
   \<Longrightarrow> OpenWithRetry_loop net num_tries wait_ms c try_count n evs
       = Some (attempt net c n, snd (Open c (net n)), Suc n, evs)"
  by (subst OpenWithRetry_loop.simps) (simp add: attempt_def Let_def)

lemma loop_fail_zero:
  "\<not> ok (attempt net c n)
   \<Longrightarrow> \<exists>evs'. OpenWithRetry_loop net 0 wait_ms c try_count n evs
             = OpenWithRetry_loop net 0 wait_ms c (try_count + 1) (Suc n) evs'"
  by (subst OpenWithRetry_loop.simps) (auto simp: attempt_def Let_def Open_failed_client)

lemma loop_fail_last:
  "\<not> ok (attempt net c n) \<Longrightarrow> num_tries \<noteq> 0 \<Longrightarrow> try_count + 1 = num_tries
   \<Longrightarrow> \<exists>evs'. OpenWithRetry_loop net num_tries wait_ms c try_count n evs
             = Some (attempt net c n, c, Suc n, evs')"
  by (subst OpenWithRetry_loop.simps) (auto simp: attempt_def Let_def Open_failed_client)

lemma loop_fail_more:
  "\<not> ok (attempt net c n) \<Longrightarrow> num_tries \<noteq> 0 \<Longrightarrow> try_count + 1 \<noteq> num_tries
   \<Longrightarrow> \<exists>evs'. OpenWithRetry_loop net num_tries wait_ms c try_count n evs
             = OpenWithRetry_loop net num_tries wait_ms c (try_count + 1) (Suc n) evs'"
  by (subst OpenWithRetry_loop.simps) (auto simp: attempt_def Let_def Open_failed_client)

lemma unat_Suc_below:
  fixes tc k :: "32 word"
  assumes "unat tc < unat k"
  shows "unat (tc + 1) = Suc (unat tc)"
proof -
  have "unat k < 2 ^ LENGTH(32)" by (rule unsigned_less)
  then have "unat tc + unat (1 :: 32 word) < 2 ^ LENGTH(32)"
    using assms by simp
  then have "unat (tc + 1) = unat tc + unat (1 :: 32 word)"
    by (simp only: unat_add_lem)
  then show ?thesis by simp
qed

lemma loop_bounded:
  fixes num_tries try_count :: "32 word"
  shows "unat num_tries - unat try_count = d \<Longrightarrow> unat try_count < unat num_tries
   \<Longrightarrow> \<exists>st c' m evs'.
         OpenWithRetry_loop net num_tries wait_ms c try_count n evs = Some (st, c', m, evs')
         \<and> n < m \<and> m \<le> n + d
         \<and> st = attempt net c (m - 1)
         \<and> (\<forall>i. n \<le> i \<and> i < m - 1 \<longrightarrow> \<not> ok (attempt net c i))
         \<and> (\<not> ok st \<longrightarrow> m = n + d)"
proof (induction d arbitrary: try_count n evs)
  case 0
  then show ?case by simp
next
  case (Suc d)
  have nz: "num_tries \<noteq> 0"
    using Suc.prems(2) by auto
  have step: "unat (try_count + 1) = Suc (unat try_count)"
    using Suc.prems(2) by (rule unat_Suc_below)
  show ?case
  proof (cases "ok (attempt net c n)")
    case True
    then show ?thesis
      by (auto simp: loop_success)
  next
    case False
    show ?thesis
    proof (cases "try_count + 1 = num_tries")
      case True
      have d0: "d = 0"
        using Suc.prems(1) step True by simp
      obtain evs' where res:
        "OpenWithRetry_loop net num_tries wait_ms c try_count n evs
           = Some (attempt net c n, c, Suc n, evs')"
        using loop_fail_last [OF False nz True] by blast
      have b1: "n < Suc n" by simp
      have b2: "Suc n \<le> n + Suc d" by simp
      have b3: "attempt net c n = attempt net c (Suc n - 1)" by simp
      have b4: "\<forall>i. n \<le> i \<and> i < Suc n - 1 \<longrightarrow> \<not> ok (attempt net c i)" by auto
      have b5: "\<not> ok (attempt net c n) \<longrightarrow> Suc n = n + Suc d" using d0 by simp
      show ?thesis
      proof (intro exI conjI)
        show "OpenWithRetry_loop net num_tries wait_ms c try_count n evs
           = Some (attempt net c n, c, Suc n, evs')" by (rule res)
        show "n < Suc n" by (rule b1)
        show "Suc n \<le> n + Suc d" by (rule b2)
        show "attempt net c n = attempt net c (Suc n - 1)" by (rule b3)
        show "\<forall>i. n \<le> i \<and> i < Suc n - 1 \<longrightarrow> \<not> ok (attempt net c i)" by (rule b4)
        show "\<not> ok (attempt net c n) \<longrightarrow> Suc n = n + Suc d" by (rule b5)
      qed
    next
      case neq: False
      have "unat (try_count + 1) \<noteq> unat num_tries"
        using neq by (simp add: word_unat_eq_iff)
      then have lt: "unat (try_count + 1) < unat num_tries"
        using step Suc.prems(2) by simp
      have dd: "unat num_tries - unat (try_count + 1) = d"
        using step Suc.prems(1) by simp
      obtain evs1 where e1:
        "OpenWithRetry_loop net num_tries wait_ms c try_count n evs
           = OpenWithRetry_loop net num_tries wait_ms c (try_count + 1) (Suc n) evs1"
        using loop_fail_more [OF False nz neq] by blast
      obtain st c' m evs' where r:
        "OpenWithRetry_loop net num_tries wait_ms c (try_count + 1) (Suc n) evs1
           = Some (st, c', m, evs')"
        "Suc n < m" "m \<le> Suc n + d" "st = attempt net c (m - 1)"
        "\<forall>i. Suc n \<le> i \<and> i < m - 1 \<longrightarrow> \<not> ok (attempt net c i)"
        "\<not> ok st \<longrightarrow> m = Suc n + d"
        using Suc.IH [OF dd lt, of "Suc n" evs1] by blast
      have all: "\<forall>i. n \<le> i \<and> i < m - 1 \<longrightarrow> \<not> ok (attempt net c i)"
      proof (intro allI impI)
        fix i assume i: "n \<le> i \<and> i < m - 1"
        show "\<not> ok (attempt net c i)"
        proof (cases "i = n")
          case True
          then show ?thesis using False by simp
        next
          case False
          then have "Suc n \<le> i \<and> i < m - 1" using i by simp
          then show ?thesis using r(5) by blast
        qed
      qed
      have r1: "OpenWithRetry_loop net num_tries wait_ms c try_count n evs = Some (st, c', m, evs')"
        using e1 r(1) by simp
      have r2: "n < m" using r(2) by simp
      have r3: "m \<le> n + Suc d" using r(3) by simp
      have r6: "\<not> ok st \<longrightarrow> m = n + Suc d" using r(6) by simp
      show ?thesis
      proof (intro exI conjI)
        show "OpenWithRetry_loop net num_tries wait_ms c try_count n evs = Some (st, c', m, evs')"
          by (rule r1)
        show "n < m" by (rule r2)
        show "m \<le> n + Suc d" by (rule r3)
        show "st = attempt net c (m - 1)" by (rule r(4))
        show "\<forall>i. n \<le> i \<and> i < m - 1 \<longrightarrow> \<not> ok (attempt net c i)" by (rule all)
        show "\<not> ok st \<longrightarrow> m = n + Suc d" by (rule r6)
      qed
    qed
  qed
qed

lemma loop_zero_returns:
  "ok (attempt net c (n + d)) \<Longrightarrow> \<forall>i < d. \<not> ok (attempt net c (n + i))
   \<Longrightarrow> \<exists>evs'. OpenWithRetry_loop net 0 wait_ms c try_count n evs
         = Some (attempt net c (n + d), snd (Open c (net (n + d))), Suc (n + d), evs')"
proof (induction d arbitrary: try_count n evs)
  case 0
  then show ?case by (simp add: loop_success)
next
  case (Suc d)
  have f: "\<not> ok (attempt net c n)"
    using Suc.prems(2) by (metis add_0 add.right_neutral zero_less_Suc)
  obtain evs1 where e1:
    "OpenWithRetry_loop net 0 wait_ms c try_count n evs
       = OpenWithRetry_loop net 0 wait_ms c (try_count + 1) (Suc n) evs1"
    using loop_fail_zero [OF f] by blast
  have a: "ok (attempt net c (Suc n + d))"
    using Suc.prems(1) by simp
  have b: "\<forall>i < d. \<not> ok (attempt net c (Suc n + i))"
  proof (intro allI impI)
    fix i assume "i < d"
    then have "Suc i < Suc d" by simp
    then have "\<not> ok (attempt net c (n + Suc i))" using Suc.prems(2) by blast
    then show "\<not> ok (attempt net c (Suc n + i))" by simp
  qed
  show ?case
    using Suc.IH [OF a b, of "try_count + 1" evs1] e1 by simp
qed

lemma loop_zero_never:
  assumes never: "\<forall>i. \<not> ok (attempt net c i)"
  shows "OpenWithRetry_loop net 0 wait_ms c try_count n evs = None"
proof (rule ccontr)
  assume "OpenWithRetry_loop net 0 wait_ms c try_count n evs \<noteq> None"
  then obtain y where y: "OpenWithRetry_loop net 0 wait_ms c try_count n evs = Some y"
    by blast
  have "net = net \<and> (0 :: 32 word) = 0 \<and> c = c \<longrightarrow> False"
  proof (rule OpenWithRetry_loop.raw_induct
      [where P = "\<lambda>net' k w c' tc m es z. net' = net \<and> k = 0 \<and> c' = c \<longrightarrow> False", OF _ y],
      goal_cases)
    case (1 loop net' k w c' tc m es z)
    show ?case
    proof
      assume eq: "net' = net \<and> k = 0 \<and> c' = c"
      have f: "\<not> ok (fst (Open c (net m)))"
        using never by (simp add: attempt_def)
      then have cl: "snd (Open c (net m)) = c"
        by (rule Open_failed_client)
      have "loop net 0 w c (tc + 1) (Suc m)
             ((es @ [LOG_INFO (''Unable to connect to '' @ ipaddress c @ '':''
                               @ show_int (port c))])
              @ [LOG_INFO (''(Attempt '' @ show_nat (unat (tc + 1)) @ '', will retry indefinitely)''),
                 SleepForMs w]) = Some z"
        using "1"(2) eq f cl by (simp add: Let_def)
      then show False
        using "1"(1) by blast
    qed
  qed
  then show False by simp
qed



lemma loop_zero_result:
  assumes "OpenWithRetry_loop net 0 wait_ms c try_count 0 evs = Some (st, c', m, evs')"
  shows "ok st \<and> 1 \<le> m \<and> st = attempt net c (m - 1) \<and> (\<forall>i < m - 1. \<not> ok (attempt net c i))"
proof -
  have "\<not> (\<forall>i. \<not> ok (attempt net c i))"
    using assms loop_zero_never [of net c wait_ms try_count 0 evs] by auto
  then have ex: "\<exists>i. ok (attempt net c i)" by blast
  define d where "d = (LEAST i. ok (attempt net c i))"
  have okd: "ok (attempt net c d)"
    unfolding d_def using ex by (rule LeastI_ex)
  have below: "\<forall>i < d. \<not> ok (attempt net c i)"
    unfolding d_def using not_less_Least by blast
  have "\<exists>evs''. OpenWithRetry_loop net 0 wait_ms c try_count 0 evs
         = Some (attempt net c (0 + d), snd (Open c (net (0 + d))), Suc (0 + d), evs'')"
    using okd below by (intro loop_zero_returns) simp_all
  then have "st = attempt net c d \<and> m = Suc d"
    using assms by auto
  then show ?thesis
    using okd below by simp
qed

text \<open>
  C7. With \<open>num_tries = k > 0\<close>, \<^verbatim>\<open>OpenWithRetry\<close> returns after \<open>m\<close> calls of \<^verbatim>\<open>Open\<close>
  with \<open>1 \<le> m \<le> k\<close>: every call before the last failed, the returned status is that of
  the last call, and if it is a failure then \<open>m = k\<close>. With \<open>num_tries = 0\<close> a call that
  returns returns OK, the status of its last call of \<^verbatim>\<open>Open\<close>, all earlier ones having
  failed; it returns if some attempt succeeds and never returns if none does.
\<close>

theorem OpenWithRetry_attempts:
  "(num_tries \<noteq> 0 \<longrightarrow>
      (\<exists>st c' m evs. OpenWithRetry net c num_tries wait_ms = Some (st, c', m, evs)
         \<and> 1 \<le> m \<and> m \<le> unat num_tries
         \<and> st = attempt net c (m - 1)
         \<and> (\<forall>i < m - 1. \<not> ok (attempt net c i))
         \<and> (\<not> ok st \<longrightarrow> m = unat num_tries)))
   \<and> (OpenWithRetry net c 0 wait_ms = Some (st0, c0, m0, evs0) \<longrightarrow>
        ok st0 \<and> 1 \<le> m0 \<and> st0 = attempt net c (m0 - 1)
        \<and> (\<forall>i < m0 - 1. \<not> ok (attempt net c i)))
   \<and> ((\<exists>i. ok (attempt net c i)) \<longrightarrow> OpenWithRetry net c 0 wait_ms \<noteq> None)
   \<and> ((\<forall>i. \<not> ok (attempt net c i)) \<longrightarrow> OpenWithRetry net c 0 wait_ms = None)"
proof -
  have bounded: "num_tries \<noteq> 0 \<longrightarrow>
      (\<exists>st c' m evs. OpenWithRetry net c num_tries wait_ms = Some (st, c', m, evs)
         \<and> 1 \<le> m \<and> m \<le> unat num_tries
         \<and> st = attempt net c (m - 1)
         \<and> (\<forall>i < m - 1. \<not> ok (attempt net c i))
         \<and> (\<not> ok st \<longrightarrow> m = unat num_tries))"
  proof
    assume nz: "num_tries \<noteq> 0"
    then have pos: "unat (0 :: 32 word) < unat num_tries"
      by (simp add: unat_gt_0)
    obtain st c' m evs where r:
      "OpenWithRetry_loop net num_tries wait_ms c 0 0 [] = Some (st, c', m, evs)"
      "0 < m" "m \<le> 0 + (unat num_tries - unat (0 :: 32 word))" "st = attempt net c (m - 1)"
      "\<forall>i. 0 \<le> i \<and> i < m - 1 \<longrightarrow> \<not> ok (attempt net c i)"
      "\<not> ok st \<longrightarrow> m = 0 + (unat num_tries - unat (0 :: 32 word))"
      using loop_bounded [OF refl pos, of net wait_ms c 0 "[]"] by (elim exE conjE) (rule that)
    show "\<exists>st c' m evs. OpenWithRetry net c num_tries wait_ms = Some (st, c', m, evs)
           \<and> 1 \<le> m \<and> m \<le> unat num_tries
           \<and> st = attempt net c (m - 1)
           \<and> (\<forall>i < m - 1. \<not> ok (attempt net c i))
           \<and> (\<not> ok st \<longrightarrow> m = unat num_tries)"
    proof (intro exI conjI)
      show "OpenWithRetry net c num_tries wait_ms = Some (st, c', m, evs)"
        using r(1) by (simp add: OpenWithRetry_def)
      show "1 \<le> m" using r(2) by simp
      show "m \<le> unat num_tries" using r(3) by simp
      show "st = attempt net c (m - 1)" by (rule r(4))
      show "\<forall>i < m - 1. \<not> ok (attempt net c i)" using r(5) by simp
      show "\<not> ok st \<longrightarrow> m = unat num_tries" using r(6) by simp
    qed
  qed
  have forever: "OpenWithRetry net c 0 wait_ms = Some (st0, c0, m0, evs0) \<longrightarrow>
        ok st0 \<and> 1 \<le> m0 \<and> st0 = attempt net c (m0 - 1)
        \<and> (\<forall>i < m0 - 1. \<not> ok (attempt net c i))"
  proof
    assume "OpenWithRetry net c 0 wait_ms = Some (st0, c0, m0, evs0)"
    then have "OpenWithRetry_loop net 0 wait_ms c 0 0 [] = Some (st0, c0, m0, evs0)"
      by (simp add: OpenWithRetry_def)
    then show "ok st0 \<and> 1 \<le> m0 \<and> st0 = attempt net c (m0 - 1)
          \<and> (\<forall>i < m0 - 1. \<not> ok (attempt net c i))"
      by (rule loop_zero_result)
  qed
  have returns: "(\<exists>i. ok (attempt net c i)) \<longrightarrow> OpenWithRetry net c 0 wait_ms \<noteq> None"
  proof
    assume ex: "\<exists>i. ok (attempt net c i)"
    define d where "d = (LEAST i. ok (attempt net c i))"
    have okd: "ok (attempt net c d)"
      unfolding d_def using ex by (rule LeastI_ex)
    have below: "\<forall>i < d. \<not> ok (attempt net c i)"
      unfolding d_def using not_less_Least by blast
    have "\<exists>evs''. OpenWithRetry_loop net 0 wait_ms c 0 0 []
           = Some (attempt net c (0 + d), snd (Open c (net (0 + d))), Suc (0 + d), evs'')"
      using okd below by (intro loop_zero_returns) simp_all
    then show "OpenWithRetry net c 0 wait_ms \<noteq> None"
      by (auto simp: OpenWithRetry_def)
  qed
  have spins: "(\<forall>i. \<not> ok (attempt net c i)) \<longrightarrow> OpenWithRetry net c 0 wait_ms = None"
  proof
    assume "\<forall>i. \<not> ok (attempt net c i)"
    then show "OpenWithRetry net c 0 wait_ms = None"
      unfolding OpenWithRetry_def by (rule loop_zero_never)
  qed
  show ?thesis
    by (intro conjI bounded forever returns spins)
qed

theorem OpenWithRetry_attempts_witness:
  "(\<exists>st c' m evs.
       OpenWithRetry (\<lambda>i. if i < 2 then Some ''refused'' else None) \<lparr>ipaddress = ''host'', port = 22000, socket_create_status = OK, transport_isOpen = False\<rparr> 5 100
         = Some (st, c', m, evs) \<and> 1 \<le> m \<and> m \<le> 5)
   \<and> OpenWithRetry (\<lambda>i. if i < 2 then Some ''refused'' else None) \<lparr>ipaddress = ''host'', port = 22000, socket_create_status = OK, transport_isOpen = False\<rparr> 0 100 \<noteq> None
   \<and> OpenWithRetry (\<lambda>i. Some ''refused'') \<lparr>ipaddress = ''host'', port = 22000, socket_create_status = OK, transport_isOpen = False\<rparr> 0 100 = None"
proof -
  let ?c = "\<lparr>ipaddress = ''host'', port = 22000, socket_create_status = OK, transport_isOpen = False\<rparr>"
  let ?net = "\<lambda>i::nat. if i < 2 then Some ''refused'' else None"
  let ?down = "\<lambda>i::nat. Some ''refused''"
  have five: "(5 :: 32 word) \<noteq> 0" by simp
  have up: "\<exists>i. ok (attempt ?net ?c i)"
    by (rule exI [of _ 2]) (simp add: attempt_def Open_def)
  have never: "\<forall>i. \<not> ok (attempt ?down ?c i)"
    by (simp add: attempt_def Open_def Status_msg_def)
  note t5 = OpenWithRetry_attempts [of 5 ?net ?c 100 OK ?c 0 "[]"]
  note t0 = OpenWithRetry_attempts [of 0 ?net ?c 100 OK ?c 0 "[]"]
  note tn = OpenWithRetry_attempts [of 0 ?down ?c 100 OK ?c 0 "[]"]
  have a: "\<exists>st c' m evs. OpenWithRetry ?net ?c 5 100 = Some (st, c', m, evs) \<and> 1 \<le> m \<and> m \<le> 5"
  proof -
    from t5 five obtain st c' m evs where
      "OpenWithRetry ?net ?c 5 100 = Some (st, c', m, evs)" "1 \<le> m" "m \<le> unat (5 :: 32 word)"
      by blast
    then show ?thesis by auto
  qed
  have b: "OpenWithRetry ?net ?c 0 100 \<noteq> None"
    using t0 up by blast
  have c: "OpenWithRetry ?down ?c 0 100 = None"
    using tn never by blast
  show ?thesis using a b c by blast
qed



section \<open>Project: validated projection lists\<close>

lemma find_char_None: "ch \<notin> set s \<Longrightarrow> find_char ch s = None"
  by (induction s) auto

lemma parseInput_no_dollar: "CHR ''$'' \<notin> set s \<Longrightarrow> parseInput s = - 1"
  by (simp add: parseInput_def find_char_None)

lemma extract_int_range: "extract_int str = Some v \<Longrightarrow> - (2 ^ 31) \<le> v \<and> v \<le> 2 ^ 31 - 1"
  by (auto simp: extract_int_def Let_def split: if_splits)

lemma parseInput_range: "- (2 ^ 31) \<le> parseInput s \<and> parseInput s \<le> 2 ^ 31 - 1"
  by (auto simp: parseInput_def dest: extract_int_range split: option.splits)

lemma cast_unsigned: "0 \<le> parseInput s \<Longrightarrow> parseInput s mod 2 ^ 32 = parseInput s"
proof -
  assume a: "0 \<le> parseInput s"
  have "parseInput s \<le> 2 ^ 31 - 1" using parseInput_range [of s] by simp
  then have "parseInput s < 2 ^ 32" by simp
  with a show ?thesis by simp
qed

lemma init_entries_step:
  "init_entries columns (e # rest) projlist =
     (if parseInput e \<le> - 1 then Inl InvalidParameter
      else if columns \<le> nat (parseInput e) then Inl IllegalSchemaDeclarationException
      else init_entries columns rest (projlist @ [parseInput e]))"
proof (cases "parseInput e \<le> - 1")
  case True
  then show ?thesis by simp
next
  case False
  then have "0 \<le> parseInput e" by simp
  then have "parseInput e mod 2 ^ 32 = parseInput e" by (rule cast_unsigned)
  then show ?thesis using False by (simp add: Let_def)
qed

lemma init_entries_invalid:
  "parseInput e \<le> - 1 \<Longrightarrow> init_entries columns (e # rest) projlist = Inl InvalidParameter"
  by (simp only: init_entries_step) simp

lemma init_entries_missing_column:
  "0 \<le> parseInput e \<Longrightarrow> columns \<le> nat (parseInput e)
   \<Longrightarrow> init_entries columns (e # rest) projlist = Inl IllegalSchemaDeclarationException"
  by (simp only: init_entries_step) simp

lemma init_entries_valid:
  "0 \<le> parseInput e \<Longrightarrow> nat (parseInput e) < columns
   \<Longrightarrow> init_entries columns (e # rest) projlist
       = init_entries columns rest (projlist @ [parseInput e])"
  by (simp only: init_entries_step) simp

lemma init_entries_prefix:
  "\<forall>x \<in> set pre. 0 \<le> parseInput x \<and> nat (parseInput x) < columns
   \<Longrightarrow> init_entries columns (pre @ rest) projlist
       = init_entries columns rest (projlist @ map parseInput pre)"
proof (induction pre arbitrary: projlist)
  case Nil
  then show ?case by simp
next
  case (Cons x pre)
  have "init_entries columns ((x # pre) @ rest) projlist
      = init_entries columns (pre @ rest) (projlist @ [parseInput x])"
    using Cons.prems by (simp only: append_Cons) (rule init_entries_valid, simp_all)
  also have "\<dots> = init_entries columns rest ((projlist @ [parseInput x]) @ map parseInput pre)"
    using Cons.prems by (intro Cons.IH) simp
  finally show ?case by simp
qed

lemma init_entries_Inr:
  "init_entries columns node projlist = Inr pl
   \<Longrightarrow> pl = projlist @ map parseInput node
       \<and> (\<forall>x \<in> set node. 0 \<le> parseInput x \<and> nat (parseInput x) < columns)"
proof (induction node arbitrary: projlist)
  case Nil
  then show ?case by simp
next
  case (Cons e node)
  have v: "0 \<le> parseInput e \<and> nat (parseInput e) < columns"
  proof (rule ccontr)
    assume "\<not> (0 \<le> parseInput e \<and> nat (parseInput e) < columns)"
    then consider "parseInput e \<le> - 1" | "0 \<le> parseInput e" "columns \<le> nat (parseInput e)"
      by linarith
    then show False
    proof cases
      case 1
      then show ?thesis using Cons.prems by (simp only: init_entries_invalid) simp
    next
      case 2
      then show ?thesis using Cons.prems by (simp only: init_entries_missing_column) simp
    qed
  qed
  then have "init_entries columns node (projlist @ [parseInput e]) = Inr pl"
    using Cons.prems by (simp only: init_entries_valid)
  then have "pl = (projlist @ [parseInput e]) @ map parseInput node
       \<and> (\<forall>x \<in> set node. 0 \<le> parseInput x \<and> nat (parseInput x) < columns)"
    by (rule Cons.IH)
  then show ?case using v by simp
qed

lemma Project_map_total:
  "\<forall>p \<in> set ps. 0 \<le> p \<and> nat p < length tuple
   \<Longrightarrow> Project_map tuple ps = Some (map (\<lambda>p. tuple ! nat p) ps)"
  by (induction ps) simp_all

lemma Project_init_Inr:
  "Project_init columns base_init node projlist = Inr pl
   \<Longrightarrow> init_entries columns node projlist = Inr pl"
  by (auto simp: Project_init_def split: sum.splits option.splits)

lemma find_char_Some:
  "find_char ch s = Some l \<Longrightarrow> s = take l s @ [ch] @ drop (Suc l) s \<and> ch \<notin> set (take l s)"
proof (induction s arbitrary: l)
  case Nil
  then show ?case by simp
next
  case (Cons x xs)
  show ?case
  proof (cases "x = ch")
    case True
    then show ?thesis using Cons.prems by simp
  next
    case False
    then obtain i where i: "find_char ch xs = Some i" "l = Suc i"
      using Cons.prems by (auto split: option.splits)
    then show ?thesis using Cons.IH [OF i(1)] False by auto
  qed
qed

lemma find_char_first: "ch \<notin> set pre \<Longrightarrow> find_char ch (pre @ ch # r) = Some (length pre)"
  by (induction pre) auto

lemma not_space_digit: "isdigit ch \<Longrightarrow> \<not> isspace ch"
  by (auto simp: isdigit_def isspace_def)

lemma digit_not_sign: "isdigit ch \<Longrightarrow> ch \<noteq> CHR ''-'' \<and> ch \<noteq> CHR ''+''"
  by (auto simp: isdigit_def)

lemma sign_not_space: "\<not> isspace (CHR ''-'') \<and> \<not> isspace (CHR ''+'')"
  by (simp add: isspace_def)

lemma sign_not_digit: "\<not> isdigit (CHR ''-'') \<and> \<not> isdigit (CHR ''+'')"
  by (simp add: isdigit_def)

lemma extract_int_Some:
  assumes "extract_int str = Some v"
  shows "\<exists>ws sg ds rest.
        str = ws @ sg @ ds @ rest
        \<and> (\<forall>ch \<in> set ws. isspace ch)
        \<and> (sg = [] \<or> sg = ''-'' \<or> sg = ''+'')
        \<and> ds \<noteq> [] \<and> (\<forall>ch \<in> set ds. isdigit ch)
        \<and> (rest = [] \<or> \<not> isdigit (hd rest))
        \<and> v = (if sg = ''-'' then - digits_value 0 ds else digits_value 0 ds)
        \<and> - (2 ^ 31) \<le> v \<and> v \<le> 2 ^ 31 - 1"
proof -
  define ws where "ws = takeWhile isspace str"
  define r1 where "r1 = dropWhile isspace str"
  define signed where "signed = (r1 \<noteq> [] \<and> (hd r1 = CHR ''-'' \<or> hd r1 = CHR ''+''))"
  define sg where "sg = (if signed then [hd r1] else [])"
  define r2 where "r2 = (if signed then tl r1 else r1)"
  define ds where "ds = takeWhile isdigit r2"
  define rest where "rest = dropWhile isdigit r2"
  define dv where "dv = (if r1 \<noteq> [] \<and> hd r1 = CHR ''-'' then - digits_value 0 ds else digits_value 0 ds)"
  have ex: "extract_int str
      = (if ds = [] then None else if dv < - (2 ^ 31) \<or> 2 ^ 31 - 1 < dv then None else Some dv)"
    by (simp add: extract_int_def Let_def ds_def r2_def signed_def r1_def dv_def)
  have nonempty: "ds \<noteq> []" and range: "- (2 ^ 31) \<le> dv \<and> dv \<le> 2 ^ 31 - 1" and v: "v = dv"
    using assms unfolding ex by (auto split: if_splits)
  have s1: "str = ws @ r1"
    by (simp add: ws_def r1_def)
  have s2: "r1 = sg @ r2"
    by (auto simp: sg_def r2_def signed_def)
  have s3: "r2 = ds @ rest"
    by (simp add: ds_def rest_def)
  have a: "str = ws @ sg @ ds @ rest"
    using s1 s2 s3 by simp
  have b: "\<forall>ch \<in> set ws. isspace ch"
    unfolding ws_def by (auto dest: set_takeWhileD)
  have c: "sg = [] \<or> sg = ''-'' \<or> sg = ''+''"
    by (auto simp: sg_def signed_def)
  have d: "\<forall>ch \<in> set ds. isdigit ch"
    unfolding ds_def by (auto dest: set_takeWhileD)
  have e: "rest = [] \<or> \<not> isdigit (hd rest)"
  proof (cases "rest = []")
    case True
    then show ?thesis by simp
  next
    case False
    then have "\<not> isdigit (hd (dropWhile isdigit r2))"
      unfolding rest_def by (rule hd_dropWhile)
    then show ?thesis by (simp add: rest_def)
  qed
  have f: "(sg = ''-'') = (r1 \<noteq> [] \<and> hd r1 = CHR ''-'')"
    by (auto simp: sg_def signed_def)
  have g: "v = (if sg = ''-'' then - digits_value 0 ds else digits_value 0 ds)"
    using v by (simp add: dv_def f)
  have h: "- (2 ^ 31) \<le> v \<and> v \<le> 2 ^ 31 - 1"
    using range v by simp
  show ?thesis
  proof (intro exI conjI)
    show "str = ws @ sg @ ds @ rest" by (rule a)
    show "\<forall>ch \<in> set ws. isspace ch" by (rule b)
    show "sg = [] \<or> sg = ''-'' \<or> sg = ''+''" by (rule c)
    show "ds \<noteq> []" by (rule nonempty)
    show "\<forall>ch \<in> set ds. isdigit ch" by (rule d)
    show "rest = [] \<or> \<not> isdigit (hd rest)" by (rule e)
    show "v = (if sg = ''-'' then - digits_value 0 ds else digits_value 0 ds)" by (rule g)
    show "- (2 ^ 31) \<le> v" using h by simp
    show "v \<le> 2 ^ 31 - 1" using h by simp
  qed
qed

lemma extract_int_parts:
  assumes ws: "\<forall>ch \<in> set ws. isspace ch"
    and sg: "sg = [] \<or> sg = ''-'' \<or> sg = ''+''"
    and ds: "ds \<noteq> []" "\<forall>ch \<in> set ds. isdigit ch"
    and rest: "rest = [] \<or> \<not> isdigit (hd rest)"
    and v: "v = (if sg = ''-'' then - digits_value 0 ds else digits_value 0 ds)"
    and range: "- (2 ^ 31) \<le> v \<and> v \<le> 2 ^ 31 - 1"
  shows "extract_int (ws @ sg @ ds @ rest) = Some v"
proof -
  obtain d0 dt where dsc: "ds = d0 # dt"
    using ds(1) by (cases ds) auto
  have d0: "isdigit d0" using ds(2) dsc by simp
  have head: "sg @ ds @ rest \<noteq> [] \<and> \<not> isspace (hd (sg @ ds @ rest))"
    using sg dsc d0 by (auto simp: not_space_digit sign_not_space)
  have r1: "dropWhile isspace (ws @ sg @ ds @ rest) = sg @ ds @ rest"
  proof -
    have "dropWhile isspace (ws @ sg @ ds @ rest) = dropWhile isspace (sg @ ds @ rest)"
      using ws by (simp add: dropWhile_append2)
    also have "\<dots> = sg @ ds @ rest"
      using head by (cases "sg @ ds @ rest") auto
    finally show ?thesis .
  qed
  have tw: "takeWhile isdigit (ds @ rest) = ds"
  proof -
    have "takeWhile isdigit (ds @ rest) = ds @ takeWhile isdigit rest"
      using ds(2) by (simp add: takeWhile_append2)
    moreover have "takeWhile isdigit rest = []"
      using rest by (cases rest) auto
    ultimately show ?thesis by simp
  qed
  from sg show ?thesis
  proof (elim disjE)
    assume e: "sg = []"
    have "hd (ds @ rest) \<noteq> CHR ''-'' \<and> hd (ds @ rest) \<noteq> CHR ''+''"
      using dsc d0 digit_not_sign [of d0] by simp
    then show ?thesis
      using r1 tw ds(1) v range e dsc by (simp add: extract_int_def Let_def)
  next
    assume e: "sg = ''-''"
    then show ?thesis
      using r1 tw ds(1) v range by (simp add: extract_int_def Let_def)
  next
    assume e: "sg = ''+''"
    then show ?thesis
      using r1 tw ds(1) v range by (simp add: extract_int_def Let_def)
  qed
qed

lemma dollar_integer_iff:
  "dollar_integer s v
     = (\<exists>l. find_char (CHR ''$'') s = Some l \<and> extract_int (drop (l + 1) s) = Some v)"
proof
  assume "dollar_integer s v"
  then obtain pre ws sg ds rest where p:
    "s = pre @ [CHR ''$''] @ ws @ sg @ ds @ rest" "CHR ''$'' \<notin> set pre"
    "\<forall>ch \<in> set ws. isspace ch" "sg = [] \<or> sg = ''-'' \<or> sg = ''+''"
    "ds \<noteq> []" "\<forall>ch \<in> set ds. isdigit ch" "rest = [] \<or> \<not> isdigit (hd rest)"
    "v = (if sg = ''-'' then - digits_value 0 ds else digits_value 0 ds)"
    "- (2 ^ 31) \<le> v" "v \<le> 2 ^ 31 - 1"
    unfolding dollar_integer_def by (elim exE conjE) (rule that)
  have f: "find_char (CHR ''$'') s = Some (length pre)"
    using p(2) by (simp add: p(1) find_char_first)
  have d: "drop (length pre + 1) s = ws @ sg @ ds @ rest"
    by (simp add: p(1))
  have "- (2 ^ 31) \<le> v \<and> v \<le> 2 ^ 31 - 1"
    using p(9,10) by (rule conjI)
  with p(3-8) have "extract_int (ws @ sg @ ds @ rest) = Some v"
    by (rule extract_int_parts)
  then show "\<exists>l. find_char (CHR ''$'') s = Some l \<and> extract_int (drop (l + 1) s) = Some v"
    using f d by auto
next
  assume "\<exists>l. find_char (CHR ''$'') s = Some l \<and> extract_int (drop (l + 1) s) = Some v"
  then obtain l where l: "find_char (CHR ''$'') s = Some l" "extract_int (drop (l + 1) s) = Some v"
    by blast
  have split: "s = take l s @ [CHR ''$''] @ drop (Suc l) s" and pre: "CHR ''$'' \<notin> set (take l s)"
    using find_char_Some [OF l(1)] by simp_all
  obtain ws sg ds rest where q:
    "drop (l + 1) s = ws @ sg @ ds @ rest" "\<forall>ch \<in> set ws. isspace ch"
    "sg = [] \<or> sg = ''-'' \<or> sg = ''+''"
    "ds \<noteq> []" "\<forall>ch \<in> set ds. isdigit ch" "rest = [] \<or> \<not> isdigit (hd rest)"
    "v = (if sg = ''-'' then - digits_value 0 ds else digits_value 0 ds)"
    "- (2 ^ 31) \<le> v" "v \<le> 2 ^ 31 - 1"
    using extract_int_Some [OF l(2)] by (elim exE conjE) (rule that)
  have "s = take l s @ [CHR ''$''] @ ws @ sg @ ds @ rest"
    using split q(1) by simp
  then show "dollar_integer s v"
    unfolding dollar_integer_def
  proof (intro exI conjI)
    show "s = take l s @ [CHR ''$''] @ ws @ sg @ ds @ rest" by fact
    show "CHR ''$'' \<notin> set (take l s)" by (rule pre)
    show "\<forall>ch \<in> set ws. isspace ch" by (rule q(2))
    show "sg = [] \<or> sg = ''-'' \<or> sg = ''+''" by (rule q(3))
    show "ds \<noteq> []" by (rule q(4))
    show "\<forall>ch \<in> set ds. isdigit ch" by (rule q(5))
    show "rest = [] \<or> \<not> isdigit (hd rest)" by (rule q(6))
    show "v = (if sg = ''-'' then - digits_value 0 ds else digits_value 0 ds)" by (rule q(7))
    show "- (2 ^ 31) \<le> v" by (rule q(8))
    show "v \<le> 2 ^ 31 - 1" by (rule q(9))
  qed
qed

lemma parseInput_dollar_integer: "dollar_integer s v \<Longrightarrow> parseInput s = v"
  by (auto simp: dollar_integer_iff parseInput_def)

lemma parseInput_not_dollar_integer: "\<not> (\<exists>v. dollar_integer s v) \<Longrightarrow> parseInput s = - 1"
  by (auto simp: dollar_integer_iff parseInput_def split: option.splits)


text \<open>
  C10. \<^verbatim>\<open>parseInput\<close> gives the integer of an entry that is \<^verbatim>\<open>$\<close> followed by an integer
  and -1 for every other entry (one without \<^verbatim>\<open>$\<close> among them). \<^verbatim>\<open>Project::init\<close> stops at
  the first entry that is not a valid column: with \<open>InvalidParameter\<close> when the entry is not
  \<^verbatim>\<open>$\<close> followed by an integer, or the integer is negative; with
  \<open>IllegalSchemaDeclarationException\<close> when the index is not below the number of source
  columns. When \<^verbatim>\<open>init\<close> of a new operator returns, every entry was \<^verbatim>\<open>$\<close> followed by an
  integer, \<open>projlist\<close> holds these integers, each of them at least 0 and below the number of
  source columns, and \<^verbatim>\<open>Project::map\<close> on a tuple of the source schema reads only columns
  that exist.
\<close>

theorem Project_init_validates:
  "(CHR ''$'' \<notin> set e \<longrightarrow> parseInput e = - 1)
   \<and> (\<not> (\<exists>u. dollar_integer e u) \<longrightarrow> parseInput e = - 1)
   \<and> (dollar_integer e v \<longrightarrow> parseInput e = v)
   \<and> ((\<forall>x \<in> set pre. 0 \<le> parseInput x \<and> nat (parseInput x) < columns) \<and> \<not> (\<exists>u. dollar_integer e u) \<longrightarrow>
        Project_init columns base_init (pre @ e # post) projlist = Inl InvalidParameter)
   \<and> ((\<forall>x \<in> set pre. 0 \<le> parseInput x \<and> nat (parseInput x) < columns) \<and> dollar_integer e v \<and> v < 0 \<longrightarrow>
        Project_init columns base_init (pre @ e # post) projlist = Inl InvalidParameter)
   \<and> ((\<forall>x \<in> set pre. 0 \<le> parseInput x \<and> nat (parseInput x) < columns) \<and> dollar_integer e v \<and> 0 \<le> v \<and> columns \<le> nat v \<longrightarrow>
        Project_init columns base_init (pre @ e # post) projlist
          = Inl IllegalSchemaDeclarationException)
   \<and> ((\<forall>x \<in> set pre. 0 \<le> parseInput x \<and> nat (parseInput x) < columns) \<and> parseInput e \<le> - 1 \<longrightarrow>
        Project_init columns base_init (pre @ e # post) projlist = Inl InvalidParameter)
   \<and> ((\<forall>x \<in> set pre. 0 \<le> parseInput x \<and> nat (parseInput x) < columns) \<and> 0 \<le> parseInput e \<and> columns \<le> nat (parseInput e) \<longrightarrow>
        Project_init columns base_init (pre @ e # post) projlist
          = Inl IllegalSchemaDeclarationException)
   \<and> (Project_init columns base_init node [] = Inr pl \<longrightarrow>
        pl = map parseInput node
        \<and> (\<forall>p \<in> set pl. 0 \<le> p \<and> nat p < columns)
        \<and> (\<forall>x \<in> set node. dollar_integer x (parseInput x)
               \<and> 0 \<le> parseInput x \<and> nat (parseInput x) < columns)
        \<and> (length tuple = columns \<longrightarrow>
              Project_map tuple pl = Some (map (\<lambda>p. tuple ! nat p) pl)))"
proof -
  have p1: "CHR ''$'' \<notin> set e \<longrightarrow> parseInput e = - 1"
    by (simp add: parseInput_no_dollar)
  have p2: "\<not> (\<exists>u. dollar_integer e u) \<longrightarrow> parseInput e = - 1"
    using parseInput_not_dollar_integer [of e] by blast
  have p3: "dollar_integer e v \<longrightarrow> parseInput e = v"
    using parseInput_dollar_integer [of e v] by blast
  have p7: "(\<forall>x \<in> set pre. 0 \<le> parseInput x \<and> nat (parseInput x) < columns) \<and> parseInput e \<le> - 1 \<longrightarrow>
        Project_init columns base_init (pre @ e # post) projlist = Inl InvalidParameter"
    by (simp add: Project_init_def init_entries_prefix)
  have p8: "(\<forall>x \<in> set pre. 0 \<le> parseInput x \<and> nat (parseInput x) < columns) \<and> 0 \<le> parseInput e \<and> columns \<le> nat (parseInput e) \<longrightarrow>
        Project_init columns base_init (pre @ e # post) projlist
          = Inl IllegalSchemaDeclarationException"
    by (simp add: Project_init_def init_entries_prefix init_entries_missing_column
        del: init_entries.simps)
  have p4: "(\<forall>x \<in> set pre. 0 \<le> parseInput x \<and> nat (parseInput x) < columns) \<and> \<not> (\<exists>u. dollar_integer e u) \<longrightarrow>
        Project_init columns base_init (pre @ e # post) projlist = Inl InvalidParameter"
  proof
    assume a: "(\<forall>x \<in> set pre. 0 \<le> parseInput x \<and> nat (parseInput x) < columns) \<and> \<not> (\<exists>u. dollar_integer e u)"
    then have "parseInput e = - 1" using p2 by blast
    then have "parseInput e \<le> - 1" by simp
    with a p7 show "Project_init columns base_init (pre @ e # post) projlist = Inl InvalidParameter"
      by blast
  qed
  have p5: "(\<forall>x \<in> set pre. 0 \<le> parseInput x \<and> nat (parseInput x) < columns) \<and> dollar_integer e v \<and> v < 0 \<longrightarrow>
        Project_init columns base_init (pre @ e # post) projlist = Inl InvalidParameter"
  proof
    assume a: "(\<forall>x \<in> set pre. 0 \<le> parseInput x \<and> nat (parseInput x) < columns) \<and> dollar_integer e v \<and> v < 0"
    then have "parseInput e = v" using p3 by blast
    then have "parseInput e \<le> - 1" using a by simp
    with a p7 show "Project_init columns base_init (pre @ e # post) projlist = Inl InvalidParameter"
      by blast
  qed
  have p6: "(\<forall>x \<in> set pre. 0 \<le> parseInput x \<and> nat (parseInput x) < columns) \<and> dollar_integer e v \<and> 0 \<le> v \<and> columns \<le> nat v \<longrightarrow>
        Project_init columns base_init (pre @ e # post) projlist
          = Inl IllegalSchemaDeclarationException"
  proof
    assume a: "(\<forall>x \<in> set pre. 0 \<le> parseInput x \<and> nat (parseInput x) < columns) \<and> dollar_integer e v \<and> 0 \<le> v \<and> columns \<le> nat v"
    then have "parseInput e = v" using p3 by blast
    then have "0 \<le> parseInput e \<and> columns \<le> nat (parseInput e)" using a by simp
    with a p8 show "Project_init columns base_init (pre @ e # post) projlist
          = Inl IllegalSchemaDeclarationException"
      by blast
  qed
  have p9: "Project_init columns base_init node [] = Inr pl \<longrightarrow>
        pl = map parseInput node
        \<and> (\<forall>p \<in> set pl. 0 \<le> p \<and> nat p < columns)
        \<and> (\<forall>x \<in> set node. dollar_integer x (parseInput x)
               \<and> 0 \<le> parseInput x \<and> nat (parseInput x) < columns)
        \<and> (length tuple = columns \<longrightarrow>
              Project_map tuple pl = Some (map (\<lambda>p. tuple ! nat p) pl))"
  proof
    assume "Project_init columns base_init node [] = Inr pl"
    then have "init_entries columns node [] = Inr pl"
      by (rule Project_init_Inr)
    then have r: "pl = [] @ map parseInput node
        \<and> (\<forall>x \<in> set node. 0 \<le> parseInput x \<and> nat (parseInput x) < columns)"
      by (rule init_entries_Inr)
    then have pl: "pl = map parseInput node" by simp
    have valid: "\<forall>p \<in> set pl. 0 \<le> p \<and> nat p < columns"
      using r by (auto simp: pl)
    have parsed: "\<forall>x \<in> set node. dollar_integer x (parseInput x)
               \<and> 0 \<le> parseInput x \<and> nat (parseInput x) < columns"
    proof
      fix x assume x: "x \<in> set node"
      then have v: "0 \<le> parseInput x \<and> nat (parseInput x) < columns" using r by blast
      then have "parseInput x \<noteq> - 1" by simp
      then obtain u where u: "dollar_integer x u"
        using parseInput_not_dollar_integer [of x] by blast
      then have "parseInput x = u" by (rule parseInput_dollar_integer)
      then show "dollar_integer x (parseInput x)
               \<and> 0 \<le> parseInput x \<and> nat (parseInput x) < columns"
        using u v by simp
    qed
    have reads: "length tuple = columns \<longrightarrow>
        Project_map tuple pl = Some (map (\<lambda>p. tuple ! nat p) pl)"
      using valid by (auto intro: Project_map_total)
    show "pl = map parseInput node
        \<and> (\<forall>p \<in> set pl. 0 \<le> p \<and> nat p < columns)
        \<and> (\<forall>x \<in> set node. dollar_integer x (parseInput x)
               \<and> 0 \<le> parseInput x \<and> nat (parseInput x) < columns)
        \<and> (length tuple = columns \<longrightarrow>
              Project_map tuple pl = Some (map (\<lambda>p. tuple ! nat p) pl))"
      by (intro conjI pl valid parsed reads)
  qed
  show ?thesis
    by (intro conjI p1 p2 p3 p4 p5 p6 p7 p8 p9)
qed

theorem Project_init_validates_witness:
  "parseInput ''two'' = - 1
   \<and> Project_init 3 None ([''$0''] @ ''two'' # [''$1'']) [] = Inl InvalidParameter
   \<and> Project_init 3 None ([''$0''] @ ''$abc'' # [''$1'']) [] = Inl InvalidParameter
   \<and> Project_init 3 None ([''$0''] @ ''$'' # [''$1'']) [] = Inl InvalidParameter
   \<and> Project_init 3 None ([''$0''] @ ''$99999999999'' # [''$1'']) [] = Inl InvalidParameter
   \<and> Project_init 3 None ([''$0''] @ ''$-2'' # [''$1'']) [] = Inl InvalidParameter
   \<and> Project_init 3 None ([''$0''] @ ''$3'' # [''$1'']) [] = Inl IllegalSchemaDeclarationException
   \<and> Project_init 3 None [''$0'', ''$2''] [] = Inr [0, 2]
   \<and> dollar_integer ''$2'' 2
   \<and> Project_map [10, 20, 30 :: int] [0, 2] = Some [10, 30]"
proof -
  have v0: "parseInput ''$0'' = 0" by code_simp
  have nd: "CHR ''$'' \<notin> set ''two''" by simp
  have ok: "Project_init 3 None [''$0'', ''$2''] [] = Inr [0, 2]" by code_simp
  have pre: "\<forall>x \<in> set [''$0'']. 0 \<le> parseInput x \<and> nat (parseInput x) < 3"
    by (simp add: v0)
  have f0: "\<And>r. find_char (CHR ''$'') (CHR ''$'' # r) = Some 0" by simp
  have xa: "extract_int ''abc'' = None" by code_simp
  have xe: "extract_int [] = None" by code_simp
  have xb: "extract_int ''99999999999'' = None" by code_simp
  have xm: "extract_int ''-2'' = Some (- 2)" by code_simp
  have x3: "extract_int ''3'' = Some 3" by code_simp
  have n_two: "\<not> (\<exists>u. dollar_integer ''two'' u)"
    by (simp add: dollar_integer_iff find_char_None)
  have n_abc: "\<not> (\<exists>u. dollar_integer ''$abc'' u)"
    by (simp add: dollar_integer_iff f0 xa)
  have n_empty: "\<not> (\<exists>u. dollar_integer ''$'' u)"
    by (simp add: dollar_integer_iff f0 xe)
  have n_big: "\<not> (\<exists>u. dollar_integer ''$99999999999'' u)"
    by (simp add: dollar_integer_iff f0 xb)
  have d_neg: "dollar_integer ''$-2'' (- 2)"
    by (simp add: dollar_integer_iff f0 xm)
  have d_3: "dollar_integer ''$3'' 3"
    by (simp add: dollar_integer_iff f0 x3)
  note t_two = Project_init_validates [where pre = "[''$0'']" and columns = 3 and base_init = None
      and post = "[''$1'']" and projlist = "[]" and node = "[''$0'', ''$2'']" and pl = "[0, 2]"
      and tuple = "[10, 20, 30 :: int]" and e = "''two''" and v = "0"]
  note t_abc = Project_init_validates [where pre = "[''$0'']" and columns = 3 and base_init = None
      and post = "[''$1'']" and projlist = "[]" and node = "[''$0'', ''$2'']" and pl = "[0, 2]"
      and tuple = "[10, 20, 30 :: int]" and e = "''$abc''" and v = "0"]
  note t_empty = Project_init_validates [where pre = "[''$0'']" and columns = 3 and base_init = None
      and post = "[''$1'']" and projlist = "[]" and node = "[''$0'', ''$2'']" and pl = "[0, 2]"
      and tuple = "[10, 20, 30 :: int]" and e = "''$''" and v = "0"]
  note t_big = Project_init_validates [where pre = "[''$0'']" and columns = 3 and base_init = None
      and post = "[''$1'']" and projlist = "[]" and node = "[''$0'', ''$2'']" and pl = "[0, 2]"
      and tuple = "[10, 20, 30 :: int]" and e = "''$99999999999''" and v = "0"]
  note t_neg = Project_init_validates [where pre = "[''$0'']" and columns = 3 and base_init = None
      and post = "[''$1'']" and projlist = "[]" and node = "[''$0'', ''$2'']" and pl = "[0, 2]"
      and tuple = "[10, 20, 30 :: int]" and e = "''$-2''" and v = "- 2"]
  note t_far = Project_init_validates [where pre = "[''$0'']" and columns = 3 and base_init = None
      and post = "[''$1'']" and projlist = "[]" and node = "[''$0'', ''$2'']" and pl = "[0, 2]"
      and tuple = "[10, 20, 30 :: int]" and e = "''$3''" and v = "3"]
  have a: "parseInput ''two'' = - 1"
    using t_two [THEN conjunct1] nd by (rule mp)
  have b: "Project_init 3 None ([''$0''] @ ''two'' # [''$1'']) [] = Inl InvalidParameter"
    using t_two [THEN conjunct2, THEN conjunct2, THEN conjunct2, THEN conjunct1] conjI [OF pre n_two] by (rule mp)
  have c: "Project_init 3 None ([''$0''] @ ''$abc'' # [''$1'']) [] = Inl InvalidParameter"
    using t_abc [THEN conjunct2, THEN conjunct2, THEN conjunct2, THEN conjunct1] conjI [OF pre n_abc] by (rule mp)
  have d: "Project_init 3 None ([''$0''] @ ''$'' # [''$1'']) [] = Inl InvalidParameter"
    using t_empty [THEN conjunct2, THEN conjunct2, THEN conjunct2, THEN conjunct1] conjI [OF pre n_empty] by (rule mp)
  have e: "Project_init 3 None ([''$0''] @ ''$99999999999'' # [''$1'']) [] = Inl InvalidParameter"
    using t_big [THEN conjunct2, THEN conjunct2, THEN conjunct2, THEN conjunct1] conjI [OF pre n_big] by (rule mp)
  have neg: "(- 2 :: int) < 0" by simp
  have f: "Project_init 3 None ([''$0''] @ ''$-2'' # [''$1'']) [] = Inl InvalidParameter"
    using t_neg [THEN conjunct2, THEN conjunct2, THEN conjunct2, THEN conjunct2, THEN conjunct1] conjI [OF pre conjI [OF d_neg neg]] by (rule mp)
  have far: "(0 :: int) \<le> 3 \<and> (3 :: nat) \<le> nat 3" by simp
  have g: "Project_init 3 None ([''$0''] @ ''$3'' # [''$1'']) [] = Inl IllegalSchemaDeclarationException"
    using t_far [THEN conjunct2, THEN conjunct2, THEN conjunct2, THEN conjunct2, THEN conjunct2, THEN conjunct1] conjI [OF pre conjI [OF d_3 far]] by (rule mp)
  have post: "[0, 2] = map parseInput [''$0'', ''$2'']
        \<and> (\<forall>p \<in> set [0, 2]. 0 \<le> p \<and> nat p < 3)
        \<and> (\<forall>x \<in> set [''$0'', ''$2'']. dollar_integer x (parseInput x)
               \<and> 0 \<le> parseInput x \<and> nat (parseInput x) < 3)
        \<and> (length [10, 20, 30 :: int] = 3 \<longrightarrow>
              Project_map [10, 20, 30 :: int] [0, 2]
                = Some (map (\<lambda>p. [10, 20, 30] ! nat p) [0, 2]))"
    using t_two [THEN conjunct2, THEN conjunct2, THEN conjunct2, THEN conjunct2, THEN conjunct2, THEN conjunct2, THEN conjunct2, THEN conjunct2] ok by (rule mp)
  have v2: "parseInput ''$2'' = 2" by code_simp
  note parsed = post [THEN conjunct2, THEN conjunct2, THEN conjunct1]
  note reads = post [THEN conjunct2, THEN conjunct2, THEN conjunct2]
  have "''$2'' \<in> set [''$0'', ''$2'']" by simp
  with parsed have "dollar_integer ''$2'' (parseInput ''$2'')
      \<and> 0 \<le> parseInput ''$2'' \<and> nat (parseInput ''$2'') < 3"
    by (rule bspec)
  then have "dollar_integer ''$2'' (parseInput ''$2'')"
    by (rule conjunct1)
  then have h: "dollar_integer ''$2'' 2"
    by (simp only: v2)
  have len: "length [10, 20, 30 :: int] = 3" by simp
  have "Project_map [10, 20, 30 :: int] [0, 2] = Some (map (\<lambda>p. [10, 20, 30] ! nat p) [0, 2])"
    using reads len by (rule mp)
  then have i: "Project_map [10, 20, 30 :: int] [0, 2] = Some [10, 30]"
    by simp
  show ?thesis
    by (intro conjI a b c d e f g ok h i)
qed



end
